theory Spec2Isabelle
  imports Main
begin

section \<open>Values of the program\<close>

text \<open>
  index.js wraps GridFS streams in locks of the gridfs-locks package. Its collaborators
  (the mongo driver, LockCollection, Lock, GridWriteStream, GridReadStream) are event
  emitters that live outside the file: the model records every call index.js makes on
  them as an \<open>effect\<close>, and every event they emit is an \<open>input\<close> of the model.
\<close>

text \<open>\<open>options._id\<close> is a String or an ObjectId (doc comment of tryParseObjectId).\<close>

datatype ident = IdStr string | IdObj nat

text \<open>What tryParseObjectId returns: an ObjectID, or the boolean false.\<close>

datatype parsed = JFalse | ObjectId nat

text \<open>Arguments that index.js passes to the caller's callbacks.\<close>

datatype jsval = Undefined | Null | JTrue | Err string | Doc nat | StreamRef nat

text \<open>
  What an emitter passes to its listeners: nothing, an Error, or a lock document
  (\<open>'locked'\<close>, \<open>'released'\<close> and \<open>'renewed'\<close> carry the document, \<open>'error'\<close> the Error).
\<close>

datatype payload = NoArg | PErr string | PDoc nat

fun val_of :: "payload \<Rightarrow> jsval" where
  "val_of NoArg = Undefined"
| "val_of (PErr e) = Err e"
| "val_of (PDoc d) = Doc d"

text \<open>JavaScript truthiness, as \<open>if (err)\<close>, \<open>!options._id\<close> and \<open>options.root &&\<close> read it.\<close>

fun truthy :: "jsval \<Rightarrow> bool" where
  "truthy Undefined = False"
| "truthy Null = False"
| "truthy _ = True"

fun truthy_id :: "ident option \<Rightarrow> bool" where
  "truthy_id None = False"
| "truthy_id (Some (IdStr s)) = (s \<noteq> [])"
| "truthy_id (Some (IdObj n)) = True"

fun truthy_str :: "string option \<Rightarrow> bool" where
  "truthy_str None = False"
| "truthy_str (Some s) = (s \<noteq> [])"

text \<open>
  The options object: \<open>_id\<close>, \<open>root\<close>, and the caller's other properties (filename, mode,
  lock parameters, ...), which index.js hands on without reading them.
\<close>

record options =
  opt_id :: "ident option"
  opt_root :: "string option"
  opt_other :: "(string \<times> string) list"

text \<open>The part of the mongo driver that index.js reads:
  \<open>new mongo.ObjectID(x)\<close> returns an ObjectID or throws (\<open>Inl\<close> is the thrown message),
  and \<open>mongo.GridStore.DEFAULT_ROOT_COLLECTION\<close>.\<close>

record mongo =
  ObjectID :: "ident \<Rightarrow> string + nat"
  DEFAULT_ROOT_COLLECTION :: string

datatype ev = Ready | Error | Locked | TimedOut | Released | Renewed | Removed
  | ExpiresSoon | Expired | Close | End

section \<open>Closures and effects\<close>

text \<open>
  The function passed to createLockCollection by the three operations:
  \<open>function(err) { if (err) { return callback(err); } lockAndX(); }\<close>,
  with the options and the callback it closes over (and, for remove, the parsed \<open>_id\<close>).
  A closure holds the options object as the call left it: the caller is taken not to
  write to the object while the operation is pending. Callbacks of the caller are
  numbered.
\<close>

datatype cont =
    K_write options nat
  | K_read options nat
  | K_remove ident options nat

text \<open>The listeners index.js registers, each with the variables it closes over.\<close>

datatype handler =
    On_ready nat cont
  | On_init_error nat cont
  | On_write_locked nat options nat
  | On_read_locked nat options nat
  | On_remove_locked nat ident options nat
  | On_timed_out nat
  | On_error nat
  | On_released nat nat
  | On_lock_error nat nat
  | On_renewed nat
  | On_expires_soon nat
  | On_expired nat
  | On_removed nat
  | On_write_error nat
  | On_write_close nat
  | TryReleaseLock nat nat

datatype effect =
    NewLockCollection nat options
  | NewLock nat "ident option" "nat option" options
  | ObtainWriteLock nat
  | ObtainReadLock nat
  | ReleaseLock nat
  | RenewLock nat
  | RemoveLock nat
  | NewGridWriteStream nat options
  | NewGridReadStream nat options
  | StreamDestroy nat
  | StreamEmit nat ev
  | Unlink nat ident options
  | ExistCall "ident option" nat
  | Callback nat "jsval list"
  | Warn string nat

text \<open>A registered listener: its identity, the event, whether it was added with
  \<open>once\<close>, and the function.\<close>

type_synonym listener = "nat \<times> ev \<times> bool \<times> handler"

section \<open>The Grid object and the emitters it talks to\<close>

text \<open>
  \<open>root\<close>, \<open>mongo\<close> and \<open>locks\<close> (\<open>self._locks\<close>) are the Grid's own fields.
  \<open>listeners\<close> holds, for each emitter object, the listeners index.js has on it;
  \<open>heldLock\<close> is the lock's field of that name, which only the lock library writes;
  \<open>releasePending\<close> is the variable of that name inside tryReleaseLock, one per read
  stream; \<open>session_lock\<close> is the \<open>lock\<close> that a stream's releaseLock, renewLock and
  heldLock methods close over; \<open>unlink_cb\<close> is the function handed to GridStore.unlink;
  \<open>fresh\<close> numbers new objects and listeners.
\<close>

record grid =
  root :: "string option"
  mongo :: mongo
  locks :: "nat option"
  listeners :: "nat \<Rightarrow> listener list"
  heldLock :: "nat \<Rightarrow> bool"
  releasePending :: "nat \<Rightarrow> bool"
  session_lock :: "nat \<Rightarrow> nat option"
  unlink_cb :: "nat \<Rightarrow> (nat \<times> nat) option"
  fresh :: nat

definition new_object :: "grid \<Rightarrow> grid" where
  "new_object s = s\<lparr>listeners := (listeners s)(fresh s := []), fresh := Suc (fresh s)\<rparr>"

definition addListener :: "nat \<Rightarrow> ev \<Rightarrow> bool \<Rightarrow> handler \<Rightarrow> grid \<Rightarrow> grid" where
  "addListener obj e once h s =
     s\<lparr>listeners := (listeners s)(obj := listeners s obj @ [(fresh s, e, once, h)]),
       fresh := Suc (fresh s)\<rparr>"

definition removeListener :: "nat \<Rightarrow> nat \<Rightarrow> grid \<Rightarrow> grid" where
  "removeListener obj u s =
     s\<lparr>listeners := (listeners s)(obj := filter (\<lambda>l. fst l \<noteq> u) (listeners s obj))\<rparr>"

definition removeAllListeners :: "nat \<Rightarrow> grid \<Rightarrow> grid" where
  "removeAllListeners obj s = s\<lparr>listeners := (listeners s)(obj := [])\<rparr>"

section \<open>index.js\<close>

subsection \<open>tryParseObjectId\<close>

definition tryParseObjectId :: "grid \<Rightarrow> ident \<Rightarrow> parsed" where
  "tryParseObjectId self string =
     (case ObjectID (mongo self) string of Inr oid \<Rightarrow> ObjectId oid | Inl _ \<Rightarrow> JFalse)"

text \<open>\<open>self.tryParseObjectId(options._id) || options._id\<close>: an ObjectID is an object,
  hence truthy.\<close>

fun or_id :: "parsed \<Rightarrow> ident \<Rightarrow> ident" where
  "or_id JFalse x = x"
| "or_id (ObjectId oid) x = IdObj oid"

subsection \<open>lockAndWrite, lockAndRead, lockAndRemove\<close>

definition lockAndWrite :: "options \<Rightarrow> nat \<Rightarrow> grid \<Rightarrow> grid \<times> effect list" where
  "lockAndWrite opts cb s =
     (let lock = fresh s in
      (addListener lock Error True (On_error cb)
        (addListener lock TimedOut True (On_timed_out cb)
          (addListener lock Locked False (On_write_locked lock opts cb)
            (new_object s))),
       [NewLock lock (opt_id opts) (locks s) opts, ObtainWriteLock lock]))"

definition lockAndRead :: "options \<Rightarrow> nat \<Rightarrow> grid \<Rightarrow> grid \<times> effect list" where
  "lockAndRead opts cb s =
     (let lock = fresh s in
      (addListener lock Error True (On_error cb)
        (addListener lock TimedOut True (On_timed_out cb)
          (addListener lock Locked False (On_read_locked lock opts cb)
            (new_object s))),
       [NewLock lock (opt_id opts) (locks s) opts, ObtainReadLock lock]))"

definition lockAndRemove :: "ident \<Rightarrow> options \<Rightarrow> nat \<Rightarrow> grid \<Rightarrow> grid \<times> effect list" where
  "lockAndRemove i opts cb s =
     (let lock = fresh s in
      (addListener lock Error True (On_error cb)
        (addListener lock TimedOut True (On_timed_out cb)
          (addListener lock Locked True (On_remove_locked lock i opts cb)
            (new_object s))),
       [NewLock lock (opt_id opts) (locks s) opts, ObtainWriteLock lock]))"

subsection \<open>createLockCollection and its callback\<close>

fun run_cont :: "cont \<Rightarrow> jsval \<Rightarrow> grid \<Rightarrow> grid \<times> effect list" where
  "run_cont (K_write opts cb) err s =
     (if truthy err then (s, [Callback cb [err]]) else lockAndWrite opts cb s)"
| "run_cont (K_read opts cb) err s =
     (if truthy err then (s, [Callback cb [err]]) else lockAndRead opts cb s)"
| "run_cont (K_remove i opts cb) err s =
     (if truthy err then (s, [Callback cb [err]]) else lockAndRemove i opts cb s)"

definition createLockCollection :: "options \<Rightarrow> cont \<Rightarrow> grid \<Rightarrow> grid \<times> effect list" where
  "createLockCollection opts callback s =
     (let lockColl = fresh s in
      (addListener lockColl Error True (On_init_error lockColl callback)
        (addListener lockColl Ready True (On_ready lockColl callback)
          (new_object (s\<lparr>root := opt_root opts\<rparr>))),
       [NewLockCollection lockColl opts]))"

subsection \<open>The listeners\<close>

definition write_lock_expired :: string where
  "write_lock_expired = ''Warning: gridfs-locking-stream Write Lock Expired for file''"

definition read_lock_expired :: string where
  "read_lock_expired = ''Warning: gridfs-locking-stream Read Lock Expired for file''"

fun run_handler :: "handler \<Rightarrow> payload \<Rightarrow> grid \<Rightarrow> grid \<times> effect list" where
  "run_handler (On_ready lockColl callback) p s =
     run_cont callback Null (removeAllListeners lockColl (s\<lparr>locks := Some lockColl\<rparr>))"
| "run_handler (On_init_error lockColl callback) p s =
     run_cont callback (val_of p) (removeAllListeners lockColl s)"
| "run_handler (On_write_locked lock opts cb) p s =
     (let stream = fresh s in
      (addListener lock Expired False (On_expired stream)
        (addListener lock ExpiresSoon False (On_expires_soon stream)
          (removeAllListeners lock
            (addListener stream Close False (On_write_close lock)
              (addListener stream Error False (On_write_error lock)
                ((new_object s)\<lparr>session_lock := (session_lock s)(stream \<mapsto> lock)\<rparr>))))),
       [NewGridWriteStream stream opts, Callback cb [Null, StreamRef stream, val_of p]]))"
| "run_handler (On_read_locked lock opts cb) p s =
     (let stream = fresh s in
      (addListener lock Expired False (On_expired stream)
        (addListener lock ExpiresSoon False (On_expires_soon stream)
          (removeAllListeners lock
            (addListener stream End False (TryReleaseLock lock stream)
              (addListener stream Close False (TryReleaseLock lock stream)
                (addListener stream Error False (TryReleaseLock lock stream)
                  ((new_object s)\<lparr>session_lock := (session_lock s)(stream \<mapsto> lock),
                     releasePending := (releasePending s)(stream := False)\<rparr>)))))),
       [NewGridReadStream stream opts, Callback cb [Null, StreamRef stream, val_of p]]))"
| "run_handler (On_remove_locked lock i opts cb) p s =
     (let req = fresh s in
      (s\<lparr>unlink_cb := (unlink_cb s)(req \<mapsto> (lock, cb)), fresh := Suc req\<rparr>,
       [Unlink req i opts]))"
| "run_handler (On_timed_out cb) p s = (s, [Callback cb [Null, Null]])"
| "run_handler (On_error cb) p s = (s, [Callback cb [val_of p]])"
| "run_handler (On_released lock cb) p s =
     (removeAllListeners lock s, [Callback cb [Null, val_of p]])"
| "run_handler (On_lock_error lock cb) p s =
     (removeAllListeners lock s, [Callback cb [val_of p]])"
| "run_handler (On_renewed cb) p s = (s, [Callback cb [Null, val_of p]])"
| "run_handler (On_expires_soon stream) p s = (s, [StreamEmit stream ExpiresSoon])"
| "run_handler (On_expired stream) p s =
     (s, [StreamDestroy stream, StreamEmit stream Expired])"
| "run_handler (On_removed cb) p s = (s, [Callback cb [Null, JTrue]])"
| "run_handler (On_write_error lock) p s =
     (if heldLock s lock then (s, [ReleaseLock lock]) else (s, []))"
| "run_handler (On_write_close lock) p s =
     (if heldLock s lock then (s, [ReleaseLock lock])
      else (s, [Warn write_lock_expired lock]))"
| "run_handler (TryReleaseLock lock stream) p s =
     (if heldLock s lock \<and> \<not> releasePending s stream
      then (s\<lparr>releasePending := (releasePending s)(stream := True)\<rparr>, [ReleaseLock lock])
      else if \<not> heldLock s lock then (s, [Warn read_lock_expired lock])
      else (s, []))"

text \<open>The function handed to GridStore.unlink in lockAndRemove; \<open>err\<close> is \<open>None\<close> for
  a null error.\<close>

definition unlink_done :: "nat \<Rightarrow> string option \<Rightarrow> grid \<Rightarrow> grid \<times> effect list" where
  "unlink_done req err s =
     (case unlink_cb s req of
        None \<Rightarrow> (s, [])
      | Some (lock, cb) \<Rightarrow>
          (case err of
             Some e \<Rightarrow> (s, [ReleaseLock lock, Callback cb [Err e]])
           | None \<Rightarrow> (addListener lock Removed False (On_removed cb) s, [RemoveLock lock])))"

subsection \<open>Emitting an event\<close>

text \<open>
  Node's \<open>emit\<close> calls a copy of the listener array taken when the event is emitted,
  in the order of registration; a listener added with \<open>once\<close> removes itself just
  before it runs. So a listener removed by an earlier one in the same round still runs.
\<close>

fun run_all :: "listener list \<Rightarrow> nat \<Rightarrow> payload \<Rightarrow> grid \<Rightarrow> grid \<times> effect list" where
  "run_all [] obj p s = (s, [])"
| "run_all ((u, e, once, h) # ls) obj p s =
     (case run_handler h p (if once then removeListener obj u s else s) of
        (s1, es1) \<Rightarrow> (case run_all ls obj p s1 of (s2, es2) \<Rightarrow> (s2, es1 @ es2)))"

definition emit :: "nat \<Rightarrow> ev \<Rightarrow> payload \<Rightarrow> grid \<Rightarrow> grid \<times> effect list" where
  "emit obj e p s = run_all (filter (\<lambda>l. fst (snd l) = e) (listeners s obj)) obj p s"

subsection \<open>createWriteStream, createReadStream, remove, exist\<close>

text \<open>
  What a call of one of the four methods does before it returns: whether it threw (and the
  message), the caller's options object as the call leaves it, the Grid, and the calls
  made on the collaborators.
\<close>

record outcome =
  threw :: "string option"
  options_after :: options
  grid_after :: grid
  effects :: "effect list"

fun show_root :: "string option \<Rightarrow> string" where
  "show_root None = ''undefined''"
| "show_root (Some r) = r"

definition root_error :: "options \<Rightarrow> grid \<Rightarrow> string" where
  "root_error opts self =
     ''Root name of Grid object cannot be changed: '' @ show_root (opt_root opts)
       @ '' !== '' @ show_root (root self)"

definition no_id_error :: string where
  "no_id_error = ''No \"_id\" provided for GridFS file. Filenames are not unique.''"

text \<open>\<open>new_id\<close> is the value of \<open>new self.mongo.ObjectID\<close> at this call.\<close>

definition createWriteStream :: "grid \<Rightarrow> options \<Rightarrow> nat \<Rightarrow> nat \<Rightarrow> outcome" where
  "createWriteStream self options callback new_id =
     (let o1 = (if \<not> truthy_id (opt_id options)
                then options\<lparr>opt_id := Some (IdObj new_id)\<rparr> else options)
      in if truthy_str (opt_root o1) \<and> root self \<noteq> opt_root o1
         then \<lparr>threw = Some (root_error o1 self), options_after = o1,
               grid_after = self, effects = []\<rparr>
         else
           (let o2 = o1\<lparr>opt_root := root self\<rparr>;
                r = (if locks self = None
                     then createLockCollection o2 (K_write o2 callback) self
                     else lockAndWrite o2 callback self)
            in \<lparr>threw = None, options_after = o2, grid_after = fst r, effects = snd r\<rparr>))"

definition createReadStream :: "grid \<Rightarrow> options \<Rightarrow> nat \<Rightarrow> outcome" where
  "createReadStream self options callback =
     (if \<not> truthy_id (opt_id options)
      then \<lparr>threw = Some no_id_error, options_after = options,
            grid_after = self, effects = []\<rparr>
      else if truthy_str (opt_root options) \<and> root self \<noteq> opt_root options
      then \<lparr>threw = Some (root_error options self), options_after = options,
            grid_after = self, effects = []\<rparr>
      else
        (let o2 = options\<lparr>opt_root := root self\<rparr>;
             r = (if locks self = None
                  then createLockCollection o2 (K_read o2 callback) self
                  else lockAndRead o2 callback self)
         in \<lparr>threw = None, options_after = o2, grid_after = fst r, effects = snd r\<rparr>))"

definition remove :: "grid \<Rightarrow> options \<Rightarrow> nat \<Rightarrow> outcome" where
  "remove self options callback =
     (case (if truthy_id (opt_id options) then opt_id options else None) of
        None \<Rightarrow> \<lparr>threw = Some no_id_error, options_after = options,
                 grid_after = self, effects = []\<rparr>
      | Some given \<Rightarrow>
         (let i = or_id (tryParseObjectId self given) given
          in if truthy_str (opt_root options) \<and> root self \<noteq> opt_root options
             then \<lparr>threw = Some (root_error options self), options_after = options,
                   grid_after = self, effects = []\<rparr>
             else
               (let o2 = options\<lparr>opt_root := root self\<rparr>;
                    r = (if locks self = None
                         then createLockCollection o2 (K_remove i o2 callback) self
                         else lockAndRemove i o2 callback self)
                in \<lparr>threw = None, options_after = o2, grid_after = fst r,
                     effects = snd r\<rparr>)))"

text \<open>exist hands the caller's callback to GridStore.exist and never calls it itself.\<close>

definition exist :: "grid \<Rightarrow> options \<Rightarrow> nat \<Rightarrow> outcome" where
  "exist self options callback =
     (let i = (case (if truthy_id (opt_id options) then opt_id options else None) of
                 None \<Rightarrow> None
               | Some given \<Rightarrow> Some (or_id (tryParseObjectId self given) given))
      in \<lparr>threw = None, options_after = options, grid_after = self,
           effects = [ExistCall i callback]\<rparr>)"

subsection \<open>The methods index.js puts on a stream\<close>

definition stream_releaseLock :: "nat \<Rightarrow> nat option \<Rightarrow> grid \<Rightarrow> grid \<times> effect list" where
  "stream_releaseLock stream callback s =
     (case session_lock s stream of
        None \<Rightarrow> (s, [])
      | Some lock \<Rightarrow>
          (case callback of
             None \<Rightarrow> (s, [ReleaseLock lock])
           | Some cb \<Rightarrow>
               (addListener lock Error True (On_lock_error lock cb)
                 (addListener lock Released True (On_released lock cb) s),
                [ReleaseLock lock])))"

definition stream_renewLock :: "nat \<Rightarrow> nat option \<Rightarrow> grid \<Rightarrow> grid \<times> effect list" where
  "stream_renewLock stream callback s =
     (case session_lock s stream of
        None \<Rightarrow> (s, [])
      | Some lock \<Rightarrow>
          (case callback of
             None \<Rightarrow> (s, [RenewLock lock])
           | Some cb \<Rightarrow>
               (addListener lock Error True (On_lock_error lock cb)
                 (addListener lock Renewed True (On_renewed cb) s),
                [RenewLock lock])))"

definition stream_heldLock :: "nat \<Rightarrow> grid \<Rightarrow> bool option" where
  "stream_heldLock stream s = map_option (heldLock s) (session_lock s stream)"

section \<open>Runs of the program\<close>

text \<open>
  Everything that can happen to a Grid: the caller calls a method, a collaborator emits
  an event or calls the unlink callback, or the lock library writes \<open>heldLock\<close>.
  Each runs to completion before the next (JavaScript's single thread).
\<close>

datatype input =
    CreateWriteStream options nat nat
  | CreateReadStream options nat
  | Remove options nat
  | Exist options nat
  | Emit nat ev payload
  | UnlinkDone nat "string option"
  | SetHeldLock nat bool
  | StreamReleaseLock nat "nat option"
  | StreamRenewLock nat "nat option"

fun step :: "grid \<Rightarrow> input \<Rightarrow> grid \<times> effect list" where
  "step s (CreateWriteStream opts cb new_id) =
     (grid_after (createWriteStream s opts cb new_id),
      effects (createWriteStream s opts cb new_id))"
| "step s (CreateReadStream opts cb) =
     (grid_after (createReadStream s opts cb), effects (createReadStream s opts cb))"
| "step s (Remove opts cb) = (grid_after (remove s opts cb), effects (remove s opts cb))"
| "step s (Exist opts cb) = (grid_after (exist s opts cb), effects (exist s opts cb))"
| "step s (Emit obj e p) = emit obj e p s"
| "step s (UnlinkDone req err) = unlink_done req err s"
| "step s (SetHeldLock lock b) = (s\<lparr>heldLock := (heldLock s)(lock := b)\<rparr>, [])"
| "step s (StreamReleaseLock stream cb) = stream_releaseLock stream cb s"
| "step s (StreamRenewLock stream cb) = stream_renewLock stream cb s"

fun run :: "grid \<Rightarrow> input list \<Rightarrow> grid" where
  "run s [] = s"
| "run s (i # is) = run (fst (step s i)) is"

fun trace :: "grid \<Rightarrow> input list \<Rightarrow> effect list" where
  "trace s [] = []"
| "trace s (i # is) = snd (step s i) @ trace (fst (step s i)) is"

text \<open>The Grid that the constructor returns when it is given an open db and the driver:
  \<open>self.root = root || self.mongo.GridStore.DEFAULT_ROOT_COLLECTION\<close>, no lock
  collection yet.\<close>

definition Grid :: "mongo \<Rightarrow> string option \<Rightarrow> grid" where
  "Grid m r =
     \<lparr>root = (if truthy_str r then r else Some (DEFAULT_ROOT_COLLECTION m)),
      mongo = m, locks = None, listeners = (\<lambda>_. []),
      heldLock = (\<lambda>_. False), releasePending = (\<lambda>_. False),
      session_lock = (\<lambda>_. None), unlink_cb = (\<lambda>_. None), fresh = 0\<rparr>"

section \<open>An invariant of the listener tables\<close>

text \<open>
  \<open>fits e h\<close>: \<open>e\<close> is the event under which index.js registers the listener \<open>h\<close>.
  \<open>acquiring T obj h\<close>: a \<open>locked\<close> listener sits on its own lock, and the obtain call for
  that lock is among the calls \<open>T\<close> made so far; a \<open>removed\<close> listener sits on a lock on
  which removeLock is among them; a \<open>ready\<close> listener sits on its own lock collection.
\<close>

fun fits :: "ev \<Rightarrow> handler \<Rightarrow> bool" where
  "fits e (On_ready _ _) = (e = Ready)"
| "fits e (On_init_error _ _) = (e = Error)"
| "fits e (On_write_locked _ _ _) = (e = Locked)"
| "fits e (On_read_locked _ _ _) = (e = Locked)"
| "fits e (On_remove_locked _ _ _ _) = (e = Locked)"
| "fits e (On_timed_out _) = (e = TimedOut)"
| "fits e (On_error _) = (e = Error)"
| "fits e (On_released _ _) = (e = Released)"
| "fits e (On_lock_error _ _) = (e = Error)"
| "fits e (On_renewed _) = (e = Renewed)"
| "fits e (On_expires_soon _) = (e = ExpiresSoon)"
| "fits e (On_expired _) = (e = Expired)"
| "fits e (On_removed _) = (e = Removed)"
| "fits e (On_write_error _) = (e = Error)"
| "fits e (On_write_close _) = (e = Close)"
| "fits e (TryReleaseLock _ _) = (e = Error \<or> e = Close \<or> e = End)"

fun acquiring :: "effect set \<Rightarrow> nat \<Rightarrow> handler \<Rightarrow> bool" where
  "acquiring T obj (On_write_locked lock _ _) = (obj = lock \<and> ObtainWriteLock lock \<in> T)"
| "acquiring T obj (On_read_locked lock _ _) = (obj = lock \<and> ObtainReadLock lock \<in> T)"
| "acquiring T obj (On_remove_locked lock _ _ _) = (obj = lock \<and> ObtainWriteLock lock \<in> T)"
| "acquiring T obj (On_removed _) = (RemoveLock obj \<in> T)"
| "acquiring T obj (On_ready lockColl _) = (obj = lockColl)"
| "acquiring T obj _ = True"

definition wf :: "effect set \<Rightarrow> grid \<Rightarrow> bool" where
  "wf T s = (\<forall>obj u e once h. (u, e, once, h) \<in> set (listeners s obj) \<longrightarrow>
               fits e h \<and> acquiring T obj h)"

text \<open>Drivers and options objects for the concrete runs below.\<close>

definition demo_mongo :: mongo where
  "demo_mongo = \<lparr>ObjectID = case_ident Inl Inr, DEFAULT_ROOT_COLLECTION = ''fs''\<rparr>"

text \<open>A second driver for concrete runs, which reads a string of 24 hex digits as the
  ObjectID of that value and refuses every other string.\<close>

fun hex_digit :: "char \<Rightarrow> nat option" where
  "hex_digit c =
     (let k = (of_char c :: nat)
      in if 48 \<le> k \<and> k \<le> 57 then Some (k - 48)
         else if 97 \<le> k \<and> k \<le> 102 then Some (k - 87)
         else if 65 \<le> k \<and> k \<le> 70 then Some (k - 55)
         else None)"

fun hex_value :: "nat \<Rightarrow> string \<Rightarrow> nat option" where
  "hex_value acc [] = Some acc"
| "hex_value acc (c # cs) =
     (case hex_digit c of None \<Rightarrow> None | Some d \<Rightarrow> hex_value (16 * acc + d) cs)"

definition hex_ObjectID :: "ident \<Rightarrow> string + nat" where
  "hex_ObjectID x =
     (case x of
        IdObj oid \<Rightarrow> Inr oid
      | IdStr str \<Rightarrow>
          (if length str = 24
           then (case hex_value 0 str of
                   Some v \<Rightarrow> Inr v
                 | None \<Rightarrow> Inl ''Argument passed in must be a string of 24 hex characters'')
           else Inl ''Argument passed in must be a string of 24 hex characters''))"

definition hex_mongo :: mongo where
  "hex_mongo = \<lparr>ObjectID = hex_ObjectID, DEFAULT_ROOT_COLLECTION = ''fs''\<rparr>"

definition hex_options :: options where
  "hex_options = \<lparr>opt_id = Some (IdStr ''0000000000000000000000ff''), opt_root = None,
     opt_other = []\<rparr>"

definition demo_options :: options where
  "demo_options = \<lparr>opt_id = Some (IdStr ''a1''), opt_root = None, opt_other = []\<rparr>"

definition oid_options :: options where
  "oid_options = \<lparr>opt_id = Some (IdObj 5), opt_root = Some ''fs'', opt_other = []\<rparr>"

definition bad_options :: options where
  "bad_options = \<lparr>opt_id = None, opt_root = Some ''other'', opt_other = [(''mode'', ''w'')]\<rparr>"

text \<open>The calls \<open>LockCollection(self.db, options)\<close> among the effects.\<close>

fun is_new_collection :: "effect \<Rightarrow> bool" where
  "is_new_collection (NewLockCollection _ _) = True"
| "is_new_collection _ = False"

text \<open>What leaves the two listeners of a session on its lock in any case: events of the
  lock other than \<open>'released'\<close> and \<open>'error'\<close>, events of the stream, the lock library
  writing \<open>heldLock\<close>, and the caller using the stream's releaseLock and renewLock.\<close>

fun session_event :: "nat \<Rightarrow> nat \<Rightarrow> input \<Rightarrow> bool" where
  "session_event lock stream (Emit obj e p) =
     (obj = stream \<or> (obj = lock \<and> e \<noteq> Error \<and> e \<noteq> Released))"
| "session_event lock stream (SetHeldLock l b) = True"
| "session_event lock stream (StreamReleaseLock st cb) = (st = stream)"
| "session_event lock stream (StreamRenewLock st cb) = (st = stream)"
| "session_event lock stream _ = False"


text \<open>Events of the stream, and the lock library writing \<open>heldLock\<close>.\<close>

fun stream_event :: "nat \<Rightarrow> input \<Rightarrow> bool" where
  "stream_event stream (Emit obj e p) = (obj = stream)"
| "stream_event stream (SetHeldLock l b) = True"
| "stream_event stream _ = False"

text \<open>Listeners that leave the Grid as it is.\<close>

fun quiet :: "handler \<Rightarrow> bool" where
  "quiet (On_renewed cb) = True"
| "quiet (On_expires_soon st) = True"
| "quiet (On_expired st) = True"
| "quiet _ = False"

text \<open>The listeners that the stream's releaseLock and renewLock add to the lock, none
  of them being one of the two listeners \<open>u1\<close>, \<open>u2\<close> that opened the session.\<close>

definition method_listener :: "nat \<Rightarrow> nat \<Rightarrow> listener \<Rightarrow> bool" where
  "method_listener u1 u2 l =
     (fst l \<noteq> u1 \<and> fst l \<noteq> u2
      \<and> (fst (snd l) = Error \<or> fst (snd l) = Released
           \<or> (fst (snd l) = Renewed \<and> quiet (snd (snd (snd l))))))"


definition read_session :: "nat \<Rightarrow> grid \<Rightarrow> bool" where
  "read_session f x =
     ((\<exists>extra. listeners x f = (f + 8, ExpiresSoon, False, On_expires_soon (f + 4))
                  # (f + 9, Expired, False, On_expired (f + 4)) # extra
               \<and> list_all (method_listener (f + 8) (f + 9)) extra)
      \<and> listeners x (f + 4) = [(f + 5, Error, False, TryReleaseLock f (f + 4)),
                               (f + 6, Close, False, TryReleaseLock f (f + 4)),
                               (f + 7, End, False, TryReleaseLock f (f + 4))]
      \<and> session_lock x (f + 4) = Some f
      \<and> f + 9 < fresh x)"


definition read_session_start :: "nat \<Rightarrow> grid \<Rightarrow> bool" where
  "read_session_start f x =
     (listeners x f = [(f + 8, ExpiresSoon, False, On_expires_soon (f + 4)),
                       (f + 9, Expired, False, On_expired (f + 4))]
      \<and> listeners x (f + 4) = [(f + 5, Error, False, TryReleaseLock f (f + 4)),
                               (f + 6, Close, False, TryReleaseLock f (f + 4)),
                               (f + 7, End, False, TryReleaseLock f (f + 4))]
      \<and> session_lock x (f + 4) = Some f
      \<and> f + 9 < fresh x)"

section \<open>The invariant holds in every run\<close>

lemma acquiring_mono: "acquiring T obj h \<Longrightarrow> T \<subseteq> T' \<Longrightarrow> acquiring T' obj h"
  by (cases h) auto

lemma wf_mono: "wf T s \<Longrightarrow> T \<subseteq> T' \<Longrightarrow> wf T' s"
  unfolding wf_def by (blast intro: acquiring_mono)

lemma wf_same_listeners: "wf T s \<Longrightarrow> listeners s' = listeners s \<Longrightarrow> wf T s'"
  by (simp add: wf_def)

lemma wf_new_object: "wf T s \<Longrightarrow> wf T (new_object s)"
  by (simp add: wf_def new_object_def)

lemma wf_addListener:
  "wf T s \<Longrightarrow> fits e h \<Longrightarrow> acquiring T obj h \<Longrightarrow> wf T (addListener obj e once h s)"
  by (auto simp: wf_def addListener_def)

lemma wf_removeListener: "wf T s \<Longrightarrow> wf T (removeListener obj u s)"
  by (auto simp: wf_def removeListener_def)

lemma wf_removeAllListeners: "wf T s \<Longrightarrow> wf T (removeAllListeners obj s)"
  by (simp add: wf_def removeAllListeners_def)

lemmas wf_prims = wf_new_object wf_addListener wf_removeListener wf_removeAllListeners

lemma wf_lockAndWrite:
  assumes "wf T s"
  shows "wf (T \<union> set (snd (lockAndWrite opts cb s))) (fst (lockAndWrite opts cb s))"
proof -
  let ?T = "T \<union> set (snd (lockAndWrite opts cb s))"
  have "wf ?T s" using assms by (rule wf_mono) simp
  moreover have "ObtainWriteLock (fresh s) \<in> ?T" by (simp add: lockAndWrite_def Let_def)
  ultimately show ?thesis by (simp add: lockAndWrite_def Let_def wf_prims)
qed

lemma wf_lockAndRead:
  assumes "wf T s"
  shows "wf (T \<union> set (snd (lockAndRead opts cb s))) (fst (lockAndRead opts cb s))"
proof -
  let ?T = "T \<union> set (snd (lockAndRead opts cb s))"
  have "wf ?T s" using assms by (rule wf_mono) simp
  moreover have "ObtainReadLock (fresh s) \<in> ?T" by (simp add: lockAndRead_def Let_def)
  ultimately show ?thesis by (simp add: lockAndRead_def Let_def wf_prims)
qed

lemma wf_lockAndRemove:
  assumes "wf T s"
  shows "wf (T \<union> set (snd (lockAndRemove i opts cb s))) (fst (lockAndRemove i opts cb s))"
proof -
  let ?T = "T \<union> set (snd (lockAndRemove i opts cb s))"
  have "wf ?T s" using assms by (rule wf_mono) simp
  moreover have "ObtainWriteLock (fresh s) \<in> ?T" by (simp add: lockAndRemove_def Let_def)
  ultimately show ?thesis by (simp add: lockAndRemove_def Let_def wf_prims)
qed

lemma wf_run_cont:
  assumes "wf T s"
  shows "wf (T \<union> set (snd (run_cont k err s))) (fst (run_cont k err s))"
proof (cases "truthy err")
  case True
  have "fst (run_cont k err s) = s" using True by (cases k) simp_all
  moreover have "wf (T \<union> set (snd (run_cont k err s))) s" using assms by (rule wf_mono) simp
  ultimately show ?thesis by simp
next
  case False
  then show ?thesis using assms
    by (cases k) (simp_all add: wf_lockAndWrite wf_lockAndRead wf_lockAndRemove)
qed

lemma wf_createLockCollection:
  assumes "wf T s"
  shows "wf (T \<union> set (snd (createLockCollection opts k s))) (fst (createLockCollection opts k s))"
proof -
  let ?T = "T \<union> set (snd (createLockCollection opts k s))"
  have "wf ?T s" using assms by (rule wf_mono) simp
  then have "wf ?T (s\<lparr>root := opt_root opts\<rparr>)" by (rule wf_same_listeners) simp
  then show ?thesis by (simp add: createLockCollection_def Let_def wf_prims)
qed

lemma wf_plain_handler:
  assumes "wf T s" and "\<forall>lc k. h \<noteq> On_ready lc k" and "\<forall>lc k. h \<noteq> On_init_error lc k"
  shows "wf T (fst (run_handler h p s))"
proof (cases h)
  case (On_write_locked l opts cb)
  have "wf T ((new_object s)\<lparr>session_lock := (session_lock s)(fresh s \<mapsto> l)\<rparr>)"
    using wf_new_object [OF assms(1)] by (rule wf_same_listeners) simp
  then show ?thesis using On_write_locked by (simp add: Let_def wf_prims)
next
  case (On_read_locked l opts cb)
  have "wf T ((new_object s)\<lparr>session_lock := (session_lock s)(fresh s \<mapsto> l),
                   releasePending := (releasePending s)(fresh s := False)\<rparr>)"
    using wf_new_object [OF assms(1)] by (rule wf_same_listeners) simp
  then show ?thesis using On_read_locked by (simp add: Let_def wf_prims)
next
  case (On_remove_locked l i opts cb)
  have "wf T (s\<lparr>unlink_cb := (unlink_cb s)(fresh s \<mapsto> (l, cb)), fresh := Suc (fresh s)\<rparr>)"
    using assms(1) by (rule wf_same_listeners) simp
  then show ?thesis using On_remove_locked by (simp add: Let_def)
next
  case (TryReleaseLock l st)
  have "wf T (s\<lparr>releasePending := (releasePending s)(st := True)\<rparr>)"
    using assms(1) by (rule wf_same_listeners) simp
  then show ?thesis using TryReleaseLock assms(1) by simp
qed (use assms in \<open>simp_all add: wf_prims\<close>)

lemma wf_run_handler:
  assumes "wf T s"
  shows "wf (T \<union> set (snd (run_handler h p s))) (fst (run_handler h p s))"
proof (cases "(\<exists>lc k. h = On_ready lc k) \<or> (\<exists>lc k. h = On_init_error lc k)")
  case True
  then show ?thesis
  proof (elim disjE exE)
    fix lc k assume h: "h = On_ready lc k"
    have "wf T (s\<lparr>locks := Some lc\<rparr>)" using assms by (rule wf_same_listeners) simp
    then have "wf T (removeAllListeners lc (s\<lparr>locks := Some lc\<rparr>))"
      by (rule wf_removeAllListeners)
    then show ?thesis using h by (simp add: wf_run_cont)
  next
    fix lc k assume h: "h = On_init_error lc k"
    have "wf T (removeAllListeners lc s)" using assms by (rule wf_removeAllListeners)
    then show ?thesis using h by (simp add: wf_run_cont)
  qed
next
  case False
  then have "wf T (fst (run_handler h p s))" using assms by (intro wf_plain_handler) auto
  then show ?thesis by (rule wf_mono) simp
qed

lemma wf_run_all:
  "wf T s \<Longrightarrow> wf (T \<union> set (snd (run_all ls obj p s))) (fst (run_all ls obj p s))"
proof (induction ls arbitrary: s T)
  case Nil
  then show ?case by simp
next
  case (Cons l ls)
  obtain u e once h where l: "l = (u, e, once, h)" by (cases l)
  let ?s0 = "if once then removeListener obj u s else s"
  let ?r = "run_handler h p ?s0"
  have "wf T ?s0" using Cons.prems by (simp add: wf_prims)
  then have "wf (T \<union> set (snd ?r)) (fst ?r)" by (rule wf_run_handler)
  then have "wf (T \<union> set (snd ?r) \<union> set (snd (run_all ls obj p (fst ?r))))
               (fst (run_all ls obj p (fst ?r)))" by (rule Cons.IH)
  then show ?case using l by (simp add: split_beta Un_assoc)
qed

lemma wf_step:
  assumes "wf T s"
  shows "wf (T \<union> set (snd (step s i))) (fst (step s i))"
proof -
  let ?T = "T \<union> set (snd (step s i))"
  have mono: "wf ?T s" using assms by (rule wf_mono) simp
  show ?thesis
  proof (cases i)
    case (CreateWriteStream opts cb n)
    then show ?thesis using assms
      by (simp add: createWriteStream_def Let_def wf_lockAndWrite wf_createLockCollection)
  next
    case (CreateReadStream opts cb)
    then show ?thesis using assms
      by (simp add: createReadStream_def Let_def wf_lockAndRead wf_createLockCollection)
  next
    case (Remove opts cb)
    then show ?thesis using assms
      by (simp add: remove_def Let_def wf_lockAndRemove wf_createLockCollection
            split: option.splits)
  next
    case (Exist opts cb)
    then show ?thesis using mono by (simp add: exist_def Let_def)
  next
    case (Emit obj e p)
    then show ?thesis using wf_run_all [OF assms] by (simp add: emit_def)
  next
    case (UnlinkDone req err)
    then show ?thesis using mono
      by (simp add: unlink_done_def wf_prims split: option.splits prod.splits)
  next
    case (SetHeldLock l b)
    have "wf ?T (s\<lparr>heldLock := (heldLock s)(l := b)\<rparr>)"
      using mono by (rule wf_same_listeners) simp
    then show ?thesis using SetHeldLock by simp
  next
    case (StreamReleaseLock st cb)
    then show ?thesis using mono
      by (simp add: stream_releaseLock_def wf_prims split: option.splits)
  next
    case (StreamRenewLock st cb)
    then show ?thesis using mono
      by (simp add: stream_renewLock_def wf_prims split: option.splits)
  qed
qed

lemma wf_Grid: "wf T (Grid m r)"
  by (simp add: wf_def Grid_def)

lemma wf_run: "wf T s \<Longrightarrow> wf (T \<union> set (trace s is)) (run s is)"
proof (induction "is" arbitrary: s T)
  case Nil
  then show ?case by simp
next
  case (Cons i "is")
  have "wf (T \<union> set (snd (step s i))) (fst (step s i))" using Cons.prems by (rule wf_step)
  then have "wf (T \<union> set (snd (step s i)) \<union> set (trace (fst (step s i)) is))
               (run (fst (step s i)) is)" by (rule Cons.IH)
  then show ?case by (simp add: Un_assoc)
qed

lemma wf_reachable: "wf (set (trace (Grid m r) is)) (run (Grid m r) is)"
  using wf_run [OF wf_Grid, of "{}" m r "is"] by simp

subsection \<open>Where an effect comes from\<close>

lemma run_all_origin:
  "x \<in> set (snd (run_all ls obj p s)) \<Longrightarrow>
     \<exists>u e once h s'. (u, e, once, h) \<in> set ls \<and> x \<in> set (snd (run_handler h p s'))"
proof (induction ls arbitrary: s)
  case Nil
  then show ?case by simp
next
  case (Cons l ls)
  obtain u e once h where l: "l = (u, e, once, h)" by (cases l)
  let ?s0 = "if once then removeListener obj u s else s"
  from Cons.prems l have "x \<in> set (snd (run_handler h p ?s0))
      \<or> x \<in> set (snd (run_all ls obj p (fst (run_handler h p ?s0))))"
    by (auto simp: split_beta)
  then show ?case
  proof
    assume "x \<in> set (snd (run_handler h p ?s0))"
    then show ?thesis using l
      by (intro exI [of _ u] exI [of _ e] exI [of _ once] exI [of _ h] exI [of _ ?s0]) simp
  next
    assume "x \<in> set (snd (run_all ls obj p (fst (run_handler h p ?s0))))"
    from Cons.IH [OF this] obtain u' e' once' h' s'
      where "(u', e', once', h') \<in> set ls" and "x \<in> set (snd (run_handler h' p s'))"
      by blast
    then show ?thesis
      by (intro exI [of _ u'] exI [of _ e'] exI [of _ once'] exI [of _ h'] exI [of _ s']) simp
  qed
qed

lemma emit_origin:
  assumes "wf T s" and "x \<in> set (snd (emit obj e p s))"
  shows "\<exists>h s'. fits e h \<and> acquiring T obj h \<and> x \<in> set (snd (run_handler h p s'))"
proof -
  from assms(2) obtain u e' once h s'
    where mem: "(u, e', once, h) \<in> set (filter (\<lambda>l. fst (snd l) = e) (listeners s obj))"
      and x: "x \<in> set (snd (run_handler h p s'))"
    unfolding emit_def by (blast dest: run_all_origin)
  from mem have "e' = e" and "(u, e, once, h) \<in> set (listeners s obj)" by auto
  with assms(1) have "fits e h \<and> acquiring T obj h" unfolding wf_def by blast
  with x show ?thesis by blast
qed

lemma lockAnd_effects:
  "set (snd (lockAndWrite opts cb s)) = {NewLock (fresh s) (opt_id opts) (locks s) opts, ObtainWriteLock (fresh s)}"
  "set (snd (lockAndRead opts cb s)) = {NewLock (fresh s) (opt_id opts) (locks s) opts, ObtainReadLock (fresh s)}"
  "set (snd (lockAndRemove i opts cb s)) = {NewLock (fresh s) (opt_id opts) (locks s) opts, ObtainWriteLock (fresh s)}"
  by (simp_all add: lockAndWrite_def lockAndRead_def lockAndRemove_def Let_def)

lemma run_cont_effects:
  "x \<in> set (snd (run_cont k err s)) \<Longrightarrow>
     (\<exists>cb. x = Callback cb [err] \<and> truthy err) \<or> (\<exists>l i c opts. x = NewLock l i c opts)
       \<or> (\<exists>l. x = ObtainWriteLock l) \<or> (\<exists>l. x = ObtainReadLock l)"
  by (cases k) (auto simp: lockAnd_effects split: if_splits)

lemma handler_null_null:
  "Callback c [Null, Null] \<in> set (snd (run_handler h p s)) \<Longrightarrow> h = On_timed_out c"
  by (cases h; cases p) (auto simp: Let_def dest!: run_cont_effects split: if_splits)

lemma handler_null_true:
  "Callback c [Null, JTrue] \<in> set (snd (run_handler h p s)) \<Longrightarrow> h = On_removed c"
  by (cases h; cases p) (auto simp: Let_def dest!: run_cont_effects split: if_splits)

lemma handler_write_stream:
  "NewGridWriteStream st opts \<in> set (snd (run_handler h p s)) \<Longrightarrow>
     \<exists>l cb. h = On_write_locked l opts cb"
  by (cases h) (auto simp: Let_def dest!: run_cont_effects split: if_splits)

lemma handler_read_stream:
  "NewGridReadStream st opts \<in> set (snd (run_handler h p s)) \<Longrightarrow>
     \<exists>l cb. h = On_read_locked l opts cb"
  by (cases h) (auto simp: Let_def dest!: run_cont_effects split: if_splits)

lemma createLockCollection_effects:
  "snd (createLockCollection opts k s) = [NewLockCollection (fresh s) opts]"
  by (simp add: createLockCollection_def Let_def)

lemma step_only_emit:
  assumes "x \<in> set (snd (step s i))"
    and "\<not> (\<exists>obj e p. i = Emit obj e p)"
  shows "(\<exists>l. x = ReleaseLock l) \<or> (\<exists>l. x = RenewLock l) \<or> (\<exists>l. x = RemoveLock l)
     \<or> (\<exists>l i c opts. x = NewLock l i c opts) \<or> (\<exists>l. x = ObtainWriteLock l)
     \<or> (\<exists>l. x = ObtainReadLock l) \<or> (\<exists>l opts. x = NewLockCollection l opts)
     \<or> (\<exists>i cb. x = ExistCall i cb) \<or> (\<exists>cb e. x = Callback cb [Err e])"
  using assms
  by (cases i)
     (auto simp: createWriteStream_def createReadStream_def remove_def exist_def Let_def
        lockAnd_effects createLockCollection_effects unlink_done_def stream_releaseLock_def
        stream_renewLock_def split: if_splits option.splits)

section \<open>The claims\<close>

lemmas eval_defs = Grid_def createWriteStream_def createReadStream_def remove_def exist_def
  createLockCollection_def lockAndWrite_def lockAndRead_def lockAndRemove_def Let_def
  addListener_def new_object_def removeListener_def removeAllListeners_def emit_def
  unlink_done_def stream_releaseLock_def stream_renewLock_def tryParseObjectId_def
  demo_mongo_def demo_options_def bad_options_def oid_options_def


lemma lock_timed_out:
  "snd (emit (fresh s) TimedOut p (fst (lockAndWrite opts cb s))) = [Callback cb [Null, Null]]"
  "snd (emit (fresh s) TimedOut p (fst (lockAndRead opts cb s))) = [Callback cb [Null, Null]]"
  "snd (emit (fresh s) TimedOut p (fst (lockAndRemove i opts cb s))) = [Callback cb [Null, Null]]"
  by (simp_all add: lockAndWrite_def lockAndRead_def lockAndRemove_def Let_def emit_def
        addListener_def new_object_def removeListener_def)

lemma lock_error:
  "snd (emit (fresh s) Error p (fst (lockAndWrite opts cb s))) = [Callback cb [val_of p]]"
  "snd (emit (fresh s) Error p (fst (lockAndRead opts cb s))) = [Callback cb [val_of p]]"
  "snd (emit (fresh s) Error p (fst (lockAndRemove i opts cb s))) = [Callback cb [val_of p]]"
  by (simp_all add: lockAndWrite_def lockAndRead_def lockAndRemove_def Let_def emit_def
        addListener_def new_object_def removeListener_def)

text \<open>The Grid in which the callback of createLockCollection runs on \<open>'ready'\<close>.\<close>

lemma collection_ready:
  "\<exists>s'. step (fst (createLockCollection opts k s)) (Emit (fresh s) Ready q) = run_cont k Null s'
        \<and> fresh s' = fresh s + 3 \<and> locks s' = Some (fresh s)"
proof -
  let ?s' = "s\<lparr>root := opt_root opts, fresh := Suc (Suc (Suc (fresh s))),
               locks := Some (fresh s), listeners := (listeners s)(fresh s := [])\<rparr>"
  have "step (fst (createLockCollection opts k s)) (Emit (fresh s) Ready q)
      = run_cont k Null ?s'"
    by (simp add: createLockCollection_def Let_def emit_def addListener_def new_object_def
          removeListener_def removeAllListeners_def)
  moreover have "fresh ?s' = fresh s + 3" and "locks ?s' = Some (fresh s)" by simp_all
  ultimately show ?thesis by blast
qed

lemma collection_error:
  "snd (emit (fresh s) Error (PErr e) (fst (createLockCollection opts k s)))
     = snd (run_cont k (Err e) s)"
  by (cases k)
     (simp_all add: createLockCollection_def Let_def emit_def addListener_def new_object_def
        removeListener_def removeAllListeners_def)

lemma lockAnd_calls:
  "snd (lockAndWrite opts cb s)
     = [NewLock (fresh s) (opt_id opts) (locks s) opts, ObtainWriteLock (fresh s)]"
  "snd (lockAndRead opts cb s)
     = [NewLock (fresh s) (opt_id opts) (locks s) opts, ObtainReadLock (fresh s)]"
  "snd (lockAndRemove i opts cb s)
     = [NewLock (fresh s) (opt_id opts) (locks s) opts, ObtainWriteLock (fresh s)]"
  by (simp_all add: lockAndWrite_def lockAndRead_def lockAndRemove_def Let_def)

text \<open>What a call that does not throw has done when it returns.\<close>

lemma createWriteStream_returns:
  assumes "threw (createWriteStream s opts cb n) = None"
  shows "step s (CreateWriteStream opts cb n)
     = (if locks s = None
        then createLockCollection (options_after (createWriteStream s opts cb n))
               (K_write (options_after (createWriteStream s opts cb n)) cb) s
        else lockAndWrite (options_after (createWriteStream s opts cb n)) cb s)"
  using assms by (auto simp: createWriteStream_def Let_def split: if_splits)

lemma createReadStream_returns:
  assumes "threw (createReadStream s opts cb) = None"
  shows "step s (CreateReadStream opts cb)
     = (if locks s = None
        then createLockCollection (options_after (createReadStream s opts cb))
               (K_read (options_after (createReadStream s opts cb)) cb) s
        else lockAndRead (options_after (createReadStream s opts cb)) cb s)"
  using assms by (auto simp: createReadStream_def Let_def split: if_splits)

lemma remove_returns:
  assumes "threw (remove s opts cb) = None"
  shows "\<exists>i. step s (Remove opts cb)
     = (if locks s = None
        then createLockCollection (options_after (remove s opts cb))
               (K_remove i (options_after (remove s opts cb)) cb) s
        else lockAndRemove i (options_after (remove s opts cb)) cb s)"
  using assms by (auto simp: remove_def Let_def split: if_splits option.splits)

lemma remove_keeps_id:
  "opt_id (options_after (remove s opts cb)) = opt_id opts"
  by (simp add: remove_def Let_def split: option.splits)

text \<open>
  C1. A createWriteStream, createReadStream or remove call that returns (does not throw)
  has asked for the lock, at once when the lock collection is cached and on the
  collection's \<open>'ready'\<close> otherwise. When that lock emits \<open>'timed-out'\<close>, index.js calls the
  operation's callback with \<open>(null, null)\<close> and does nothing else; when it emits
  \<open>'error'\<close>, or when the lock collection being set up emits \<open>'error'\<close>, index.js calls the
  callback with the error as its only argument. In every run of a Grid, a call
  \<open>callback(null, null)\<close> happens only while a \<open>'timed-out'\<close> event is being handled: never on
  an error of the lock service, of the lock collection or of the store.
\<close>

theorem timed_out_gives_null_null:
  "(threw (createWriteStream s opts cb n) = None \<and> locks s \<noteq> None \<longrightarrow>
      trace s [CreateWriteStream opts cb n, Emit (fresh s) TimedOut p]
        = [NewLock (fresh s) (opt_id (options_after (createWriteStream s opts cb n))) (locks s)
             (options_after (createWriteStream s opts cb n)),
           ObtainWriteLock (fresh s), Callback cb [Null, Null]]
      \<and> trace s [CreateWriteStream opts cb n, Emit (fresh s) Error p]
        = [NewLock (fresh s) (opt_id (options_after (createWriteStream s opts cb n))) (locks s)
             (options_after (createWriteStream s opts cb n)),
           ObtainWriteLock (fresh s), Callback cb [val_of p]])
   \<and> (threw (createWriteStream s opts cb n) = None \<and> locks s = None \<longrightarrow>
      trace s [CreateWriteStream opts cb n, Emit (fresh s) Ready q,
               Emit (fresh s + 3) TimedOut p]
        = [NewLockCollection (fresh s) (options_after (createWriteStream s opts cb n)),
           NewLock (fresh s + 3) (opt_id (options_after (createWriteStream s opts cb n)))
             (Some (fresh s)) (options_after (createWriteStream s opts cb n)),
           ObtainWriteLock (fresh s + 3), Callback cb [Null, Null]]
      \<and> trace s [CreateWriteStream opts cb n, Emit (fresh s) Ready q,
               Emit (fresh s + 3) Error p]
        = [NewLockCollection (fresh s) (options_after (createWriteStream s opts cb n)),
           NewLock (fresh s + 3) (opt_id (options_after (createWriteStream s opts cb n)))
             (Some (fresh s)) (options_after (createWriteStream s opts cb n)),
           ObtainWriteLock (fresh s + 3), Callback cb [val_of p]]
      \<and> trace s [CreateWriteStream opts cb n, Emit (fresh s) Error (PErr e)]
        = [NewLockCollection (fresh s) (options_after (createWriteStream s opts cb n)),
           Callback cb [Err e]])
   \<and> (threw (createReadStream s opts cb) = None \<and> locks s \<noteq> None \<longrightarrow>
      trace s [CreateReadStream opts cb, Emit (fresh s) TimedOut p]
        = [NewLock (fresh s) (opt_id opts) (locks s) (options_after (createReadStream s opts cb)),
           ObtainReadLock (fresh s), Callback cb [Null, Null]]
      \<and> trace s [CreateReadStream opts cb, Emit (fresh s) Error p]
        = [NewLock (fresh s) (opt_id opts) (locks s) (options_after (createReadStream s opts cb)),
           ObtainReadLock (fresh s), Callback cb [val_of p]])
   \<and> (threw (createReadStream s opts cb) = None \<and> locks s = None \<longrightarrow>
      trace s [CreateReadStream opts cb, Emit (fresh s) Ready q, Emit (fresh s + 3) TimedOut p]
        = [NewLockCollection (fresh s) (options_after (createReadStream s opts cb)),
           NewLock (fresh s + 3) (opt_id opts) (Some (fresh s))
             (options_after (createReadStream s opts cb)),
           ObtainReadLock (fresh s + 3), Callback cb [Null, Null]]
      \<and> trace s [CreateReadStream opts cb, Emit (fresh s) Ready q, Emit (fresh s + 3) Error p]
        = [NewLockCollection (fresh s) (options_after (createReadStream s opts cb)),
           NewLock (fresh s + 3) (opt_id opts) (Some (fresh s))
             (options_after (createReadStream s opts cb)),
           ObtainReadLock (fresh s + 3), Callback cb [val_of p]]
      \<and> trace s [CreateReadStream opts cb, Emit (fresh s) Error (PErr e)]
        = [NewLockCollection (fresh s) (options_after (createReadStream s opts cb)),
           Callback cb [Err e]])
   \<and> (threw (remove s opts cb) = None \<and> locks s \<noteq> None \<longrightarrow>
      trace s [Remove opts cb, Emit (fresh s) TimedOut p]
        = [NewLock (fresh s) (opt_id opts) (locks s) (options_after (remove s opts cb)),
           ObtainWriteLock (fresh s), Callback cb [Null, Null]]
      \<and> trace s [Remove opts cb, Emit (fresh s) Error p]
        = [NewLock (fresh s) (opt_id opts) (locks s) (options_after (remove s opts cb)),
           ObtainWriteLock (fresh s), Callback cb [val_of p]])
   \<and> (threw (remove s opts cb) = None \<and> locks s = None \<longrightarrow>
      trace s [Remove opts cb, Emit (fresh s) Ready q, Emit (fresh s + 3) TimedOut p]
        = [NewLockCollection (fresh s) (options_after (remove s opts cb)),
           NewLock (fresh s + 3) (opt_id opts) (Some (fresh s)) (options_after (remove s opts cb)),
           ObtainWriteLock (fresh s + 3), Callback cb [Null, Null]]
      \<and> trace s [Remove opts cb, Emit (fresh s) Ready q, Emit (fresh s + 3) Error p]
        = [NewLockCollection (fresh s) (options_after (remove s opts cb)),
           NewLock (fresh s + 3) (opt_id opts) (Some (fresh s)) (options_after (remove s opts cb)),
           ObtainWriteLock (fresh s + 3), Callback cb [val_of p]]
      \<and> trace s [Remove opts cb, Emit (fresh s) Error (PErr e)]
        = [NewLockCollection (fresh s) (options_after (remove s opts cb)),
           Callback cb [Err e]])
   \<and> (Callback c [Null, Null] \<in> set (snd (step (run (Grid m r) hist) inp)) \<longrightarrow>
        (\<exists>lock p'. inp = Emit lock TimedOut p'))"
proof -
  have only: "Callback c [Null, Null] \<in> set (snd (step (run (Grid m r) hist) inp)) \<longrightarrow>
        (\<exists>lock p'. inp = Emit lock TimedOut p')"
  proof
    assume mem: "Callback c [Null, Null] \<in> set (snd (step (run (Grid m r) hist) inp))"
    show "\<exists>lock p'. inp = Emit lock TimedOut p'"
    proof (cases "\<exists>obj e p. inp = Emit obj e p")
      case True
      then obtain obj e p' where inp: "inp = Emit obj e p'" by blast
      with mem have "Callback c [Null, Null] \<in> set (snd (emit obj e p' (run (Grid m r) hist)))"
        by simp
      from emit_origin [OF wf_reachable this] obtain h s'
        where "fits e h" and "Callback c [Null, Null] \<in> set (snd (run_handler h p' s'))"
        by blast
      then have "e = TimedOut" by (auto dest: handler_null_null)
      with inp show ?thesis by blast
    next
      case False
      from step_only_emit [OF mem False] show ?thesis by auto
    qed
  qed
  have cached: "trace s [call, Emit (fresh s) ev p] = snd (lockAnd s) @ last_effects"
    if "step s call = lockAnd s"
      and "snd (emit (fresh s) ev p (fst (lockAnd s))) = last_effects"
    for call lockAnd ev last_effects
    using that by simp
  have uncached: "trace s [call, Emit (fresh s) Ready q, Emit (fresh s + 3) ev p]
      = NewLockCollection (fresh s) oa # calls (fresh s + 3) (Some (fresh s)) @ last_effects"
    if "step s call = createLockCollection oa k s"
      and "\<And>s'. run_cont k Null s' = lockAnd s'"
      and "\<And>s'. snd (lockAnd s') = calls (fresh s') (locks s')"
      and "\<And>s'. snd (emit (fresh s') ev p (fst (lockAnd s'))) = last_effects"
    for call oa k lockAnd calls ev last_effects
  proof -
    obtain s' where "step (fst (createLockCollection oa k s)) (Emit (fresh s) Ready q)
        = run_cont k Null s'" and f: "fresh s' = fresh s + 3" and l: "locks s' = Some (fresh s)"
      using collection_ready by blast
    then have s': "emit (fresh s) Ready q (fst (createLockCollection oa k s)) = lockAnd s'"
      by (simp add: that(2))
    show ?thesis
      using that(4) [of s'] that(3) [of s']
      by (simp add: that(1) s' createLockCollection_effects f l)
  qed
  have init_error: "trace s [call, Emit (fresh s) Error (PErr e)]
      = [NewLockCollection (fresh s) oa, Callback cb [Err e]]"
    if "step s call = createLockCollection oa k s" and "snd (run_cont k (Err e) s) = [Callback cb [Err e]]"
    for call oa k
    using that by (simp add: createLockCollection_effects collection_error)
  show ?thesis
  proof (intro conjI impI only; elim conjE)
    assume t: "threw (createWriteStream s opts cb n) = None" and l: "locks s \<noteq> None"
    let ?oa = "options_after (createWriteStream s opts cb n)"
    have st: "step s (CreateWriteStream opts cb n) = lockAndWrite ?oa cb s"
      using createWriteStream_returns [OF t] l by simp
    show "trace s [CreateWriteStream opts cb n, Emit (fresh s) TimedOut p]
        = [NewLock (fresh s) (opt_id ?oa) (locks s) ?oa,
           ObtainWriteLock (fresh s), Callback cb [Null, Null]]"
      using cached [of _ "lockAndWrite ?oa cb", OF st lock_timed_out(1)]
      by (simp add: lockAnd_calls)
    show "trace s [CreateWriteStream opts cb n, Emit (fresh s) Error p]
        = [NewLock (fresh s) (opt_id ?oa) (locks s) ?oa,
           ObtainWriteLock (fresh s), Callback cb [val_of p]]"
      using cached [of _ "lockAndWrite ?oa cb", OF st lock_error(1)]
      by (simp add: lockAnd_calls)
  next
    assume t: "threw (createWriteStream s opts cb n) = None" and l: "locks s = None"
    let ?oa = "options_after (createWriteStream s opts cb n)"
    have st: "step s (CreateWriteStream opts cb n)
        = createLockCollection ?oa (K_write ?oa cb) s"
      using createWriteStream_returns [OF t] l by simp
    show "trace s [CreateWriteStream opts cb n, Emit (fresh s) Ready q,
               Emit (fresh s + 3) TimedOut p]
        = [NewLockCollection (fresh s) ?oa,
           NewLock (fresh s + 3) (opt_id ?oa) (Some (fresh s)) ?oa,
           ObtainWriteLock (fresh s + 3), Callback cb [Null, Null]]"
      using uncached [of _ ?oa "K_write ?oa cb" "lockAndWrite ?oa cb"
          "\<lambda>f c. [NewLock f (opt_id ?oa) c ?oa, ObtainWriteLock f]"
          TimedOut "[Callback cb [Null, Null]]", OF st]
      by (simp add: lockAnd_calls lock_timed_out)
    show "trace s [CreateWriteStream opts cb n, Emit (fresh s) Ready q,
               Emit (fresh s + 3) Error p]
        = [NewLockCollection (fresh s) ?oa,
           NewLock (fresh s + 3) (opt_id ?oa) (Some (fresh s)) ?oa,
           ObtainWriteLock (fresh s + 3), Callback cb [val_of p]]"
      using uncached [of _ ?oa "K_write ?oa cb" "lockAndWrite ?oa cb"
          "\<lambda>f c. [NewLock f (opt_id ?oa) c ?oa, ObtainWriteLock f]"
          Error "[Callback cb [val_of p]]", OF st]
      by (simp add: lockAnd_calls lock_error)
    show "trace s [CreateWriteStream opts cb n, Emit (fresh s) Error (PErr e)]
        = [NewLockCollection (fresh s) ?oa, Callback cb [Err e]]"
      using init_error [OF st] by simp
  next
    assume t: "threw (createReadStream s opts cb) = None" and l: "locks s \<noteq> None"
    let ?oa = "options_after (createReadStream s opts cb)"
    have id: "opt_id ?oa = opt_id opts"
      by (simp add: createReadStream_def Let_def)
    have st: "step s (CreateReadStream opts cb) = lockAndRead ?oa cb s"
      using createReadStream_returns [OF t] l by simp
    show "trace s [CreateReadStream opts cb, Emit (fresh s) TimedOut p]
        = [NewLock (fresh s) (opt_id opts) (locks s) ?oa,
           ObtainReadLock (fresh s), Callback cb [Null, Null]]"
      using cached [of _ "lockAndRead ?oa cb", OF st lock_timed_out(2)]
      by (simp add: lockAnd_calls id)
    show "trace s [CreateReadStream opts cb, Emit (fresh s) Error p]
        = [NewLock (fresh s) (opt_id opts) (locks s) ?oa,
           ObtainReadLock (fresh s), Callback cb [val_of p]]"
      using cached [of _ "lockAndRead ?oa cb", OF st lock_error(2)]
      by (simp add: lockAnd_calls id)
  next
    assume t: "threw (createReadStream s opts cb) = None" and l: "locks s = None"
    let ?oa = "options_after (createReadStream s opts cb)"
    have id: "opt_id ?oa = opt_id opts"
      by (simp add: createReadStream_def Let_def)
    have st: "step s (CreateReadStream opts cb)
        = createLockCollection ?oa (K_read ?oa cb) s"
      using createReadStream_returns [OF t] l by simp
    show "trace s [CreateReadStream opts cb, Emit (fresh s) Ready q, Emit (fresh s + 3) TimedOut p]
        = [NewLockCollection (fresh s) ?oa,
           NewLock (fresh s + 3) (opt_id opts) (Some (fresh s)) ?oa,
           ObtainReadLock (fresh s + 3), Callback cb [Null, Null]]"
      using uncached [of _ ?oa "K_read ?oa cb" "lockAndRead ?oa cb"
          "\<lambda>f c. [NewLock f (opt_id ?oa) c ?oa, ObtainReadLock f]"
          TimedOut "[Callback cb [Null, Null]]", OF st]
      by (simp add: lockAnd_calls lock_timed_out id)
    show "trace s [CreateReadStream opts cb, Emit (fresh s) Ready q, Emit (fresh s + 3) Error p]
        = [NewLockCollection (fresh s) ?oa,
           NewLock (fresh s + 3) (opt_id opts) (Some (fresh s)) ?oa,
           ObtainReadLock (fresh s + 3), Callback cb [val_of p]]"
      using uncached [of _ ?oa "K_read ?oa cb" "lockAndRead ?oa cb"
          "\<lambda>f c. [NewLock f (opt_id ?oa) c ?oa, ObtainReadLock f]"
          Error "[Callback cb [val_of p]]", OF st]
      by (simp add: lockAnd_calls lock_error id)
    show "trace s [CreateReadStream opts cb, Emit (fresh s) Error (PErr e)]
        = [NewLockCollection (fresh s) ?oa, Callback cb [Err e]]"
      using init_error [OF st] by simp
  next
    assume t: "threw (remove s opts cb) = None" and l: "locks s \<noteq> None"
    let ?oa = "options_after (remove s opts cb)"
    from remove_returns [OF t] l obtain i
      where st: "step s (Remove opts cb) = lockAndRemove i ?oa cb s" by auto
    show "trace s [Remove opts cb, Emit (fresh s) TimedOut p]
        = [NewLock (fresh s) (opt_id opts) (locks s) ?oa,
           ObtainWriteLock (fresh s), Callback cb [Null, Null]]"
      using cached [of _ "lockAndRemove i ?oa cb", OF st lock_timed_out(3)]
      by (simp add: lockAnd_calls remove_keeps_id)
    show "trace s [Remove opts cb, Emit (fresh s) Error p]
        = [NewLock (fresh s) (opt_id opts) (locks s) ?oa,
           ObtainWriteLock (fresh s), Callback cb [val_of p]]"
      using cached [of _ "lockAndRemove i ?oa cb", OF st lock_error(3)]
      by (simp add: lockAnd_calls remove_keeps_id)
  next
    assume t: "threw (remove s opts cb) = None" and l: "locks s = None"
    let ?oa = "options_after (remove s opts cb)"
    from remove_returns [OF t] l obtain i
      where st: "step s (Remove opts cb) = createLockCollection ?oa (K_remove i ?oa cb) s"
      by auto
    show "trace s [Remove opts cb, Emit (fresh s) Ready q, Emit (fresh s + 3) TimedOut p]
        = [NewLockCollection (fresh s) ?oa,
           NewLock (fresh s + 3) (opt_id opts) (Some (fresh s)) ?oa,
           ObtainWriteLock (fresh s + 3), Callback cb [Null, Null]]"
      using uncached [of _ ?oa "K_remove i ?oa cb" "lockAndRemove i ?oa cb"
          "\<lambda>f c. [NewLock f (opt_id ?oa) c ?oa, ObtainWriteLock f]"
          TimedOut "[Callback cb [Null, Null]]", OF st]
      by (simp add: lockAnd_calls lock_timed_out remove_keeps_id)
    show "trace s [Remove opts cb, Emit (fresh s) Ready q, Emit (fresh s + 3) Error p]
        = [NewLockCollection (fresh s) ?oa,
           NewLock (fresh s + 3) (opt_id opts) (Some (fresh s)) ?oa,
           ObtainWriteLock (fresh s + 3), Callback cb [val_of p]]"
      using uncached [of _ ?oa "K_remove i ?oa cb" "lockAndRemove i ?oa cb"
          "\<lambda>f c. [NewLock f (opt_id ?oa) c ?oa, ObtainWriteLock f]"
          Error "[Callback cb [val_of p]]", OF st]
      by (simp add: lockAnd_calls lock_error remove_keeps_id)
    show "trace s [Remove opts cb, Emit (fresh s) Error (PErr e)]
        = [NewLockCollection (fresh s) ?oa, Callback cb [Err e]]"
      using init_error [OF st] by simp
  qed
qed

theorem timed_out_gives_null_null_witness:
  "threw (createWriteStream (Grid demo_mongo (Some ''fs'')) demo_options 50 0) = None
   \<and> threw (createReadStream (Grid demo_mongo (Some ''fs'')) demo_options 50) = None
   \<and> threw (remove (Grid demo_mongo (Some ''fs'')) demo_options 50) = None
   \<and> locks (Grid demo_mongo (Some ''fs'')) = None
   \<and> trace (Grid demo_mongo (Some ''fs''))
        [CreateWriteStream demo_options 50 0, Emit 0 Ready NoArg, Emit 3 TimedOut NoArg]
      = [NewLockCollection 0
           \<lparr>opt_id = Some (IdStr ''a1''), opt_root = Some ''fs'', opt_other = []\<rparr>,
         NewLock 3 (Some (IdStr ''a1'')) (Some 0)
           \<lparr>opt_id = Some (IdStr ''a1''), opt_root = Some ''fs'', opt_other = []\<rparr>,
         ObtainWriteLock 3, Callback 50 [Null, Null]]
   \<and> trace (Grid demo_mongo (Some ''fs''))
        [CreateReadStream demo_options 50, Emit 0 Ready NoArg, Emit 3 TimedOut NoArg]
      = [NewLockCollection 0
           \<lparr>opt_id = Some (IdStr ''a1''), opt_root = Some ''fs'', opt_other = []\<rparr>,
         NewLock 3 (Some (IdStr ''a1'')) (Some 0)
           \<lparr>opt_id = Some (IdStr ''a1''), opt_root = Some ''fs'', opt_other = []\<rparr>,
         ObtainReadLock 3, Callback 50 [Null, Null]]
   \<and> trace (Grid demo_mongo (Some ''fs''))
        [Remove demo_options 50, Emit 0 Ready NoArg, Emit 3 TimedOut NoArg]
      = [NewLockCollection 0
           \<lparr>opt_id = Some (IdStr ''a1''), opt_root = Some ''fs'', opt_other = []\<rparr>,
         NewLock 3 (Some (IdStr ''a1'')) (Some 0)
           \<lparr>opt_id = Some (IdStr ''a1''), opt_root = Some ''fs'', opt_other = []\<rparr>,
         ObtainWriteLock 3, Callback 50 [Null, Null]]
   \<and> trace (Grid demo_mongo (Some ''fs''))
        [Remove demo_options 50, Emit 0 Error (PErr ''lost'')]
      = [NewLockCollection 0
           \<lparr>opt_id = Some (IdStr ''a1''), opt_root = Some ''fs'', opt_other = []\<rparr>,
         Callback 50 [Err ''lost'']]
   \<and> threw (createReadStream
        (run (Grid demo_mongo (Some ''fs'')) [CreateWriteStream demo_options 50 0, Emit 0 Ready NoArg])
        demo_options 51) = None
   \<and> locks (run (Grid demo_mongo (Some ''fs''))
        [CreateWriteStream demo_options 50 0, Emit 0 Ready NoArg]) = Some 0
   \<and> trace (run (Grid demo_mongo (Some ''fs''))
          [CreateWriteStream demo_options 50 0, Emit 0 Ready NoArg])
        [CreateReadStream demo_options 51, Emit 7 TimedOut NoArg]
      = [NewLock 7 (Some (IdStr ''a1'')) (Some 0)
           \<lparr>opt_id = Some (IdStr ''a1''), opt_root = Some ''fs'', opt_other = []\<rparr>,
         ObtainReadLock 7, Callback 51 [Null, Null]]
   \<and> trace (run (Grid demo_mongo (Some ''fs''))
          [CreateWriteStream demo_options 50 0, Emit 0 Ready NoArg])
        [CreateReadStream demo_options 51, Emit 7 Error (PErr ''lost'')]
      = [NewLock 7 (Some (IdStr ''a1'')) (Some 0)
           \<lparr>opt_id = Some (IdStr ''a1''), opt_root = Some ''fs'', opt_other = []\<rparr>,
         ObtainReadLock 7, Callback 51 [Err ''lost'']]
   \<and> Callback 50 [Null, Null] \<in> set (snd (step
        (run (Grid demo_mongo (Some ''fs'')) [CreateWriteStream demo_options 50 0, Emit 0 Ready NoArg])
        (Emit 3 TimedOut NoArg)))
   \<and> (\<exists>lock p'. Emit 3 TimedOut NoArg = Emit lock TimedOut p')"
proof -
  let ?G = "Grid demo_mongo (Some ''fs'')"
  let ?s1 = "run ?G [CreateWriteStream demo_options 50 0, Emit 0 Ready NoArg]"
  let ?o = "\<lparr>opt_id = Some (IdStr ''a1''), opt_root = Some ''fs'', opt_other = []\<rparr>"
  have prem: "threw (createWriteStream ?G demo_options 50 0) = None"
    "threw (createReadStream ?G demo_options 50) = None"
    "threw (remove ?G demo_options 50) = None"
    "locks ?G = None"
    by (simp_all add: eval_defs)
  have prem1: "threw (createReadStream ?s1 demo_options 51) = None" "locks ?s1 = Some 0"
    by (simp_all add: eval_defs)
  have mem: "Callback 50 [Null, Null] \<in> set (snd (step ?s1 (Emit 3 TimedOut NoArg)))"
    by (simp add: eval_defs)
  have vals: "fresh ?G = 0" "fresh ?s1 = 7"
    "options_after (createWriteStream ?G demo_options 50 0) = ?o"
    "options_after (createReadStream ?G demo_options 50) = ?o"
    "options_after (remove ?G demo_options 50) = ?o"
    "options_after (createReadStream ?s1 demo_options 51) = ?o"
    "opt_id demo_options = Some (IdStr ''a1'')"
    by (simp_all add: eval_defs)
  note G = timed_out_gives_null_null
    [where s = ?G and opts = demo_options and cb = 50 and n = 0 and p = NoArg and q = NoArg
       and e = "''lost''" and c = 50 and m = demo_mongo and r = "Some ''fs''"
       and hist = "[CreateWriteStream demo_options 50 0, Emit 0 Ready NoArg]"
       and inp = "Emit 3 TimedOut NoArg"]
  note S = timed_out_gives_null_null
    [where s = ?s1 and opts = demo_options and cb = 51 and n = 0 and p = NoArg and q = NoArg
       and e = "''lost''" and c = 50 and m = demo_mongo and r = "Some ''fs''"
       and hist = "[CreateWriteStream demo_options 50 0, Emit 0 Ready NoArg]"
       and inp = "Emit 3 TimedOut NoArg"]
  note S' = timed_out_gives_null_null
    [where s = ?s1 and opts = demo_options and cb = 51 and n = 0 and p = "PErr ''lost''"
       and q = NoArg and e = "''lost''" and c = 50 and m = demo_mongo and r = "Some ''fs''"
       and hist = "[CreateWriteStream demo_options 50 0, Emit 0 Ready NoArg]"
       and inp = "Emit 3 TimedOut NoArg"]
  from G prem have
    "trace ?G [CreateWriteStream demo_options 50 0, Emit (fresh ?G) Ready NoArg,
               Emit (fresh ?G + 3) TimedOut NoArg]
       = [NewLockCollection (fresh ?G) (options_after (createWriteStream ?G demo_options 50 0)),
          NewLock (fresh ?G + 3) (opt_id (options_after (createWriteStream ?G demo_options 50 0)))
            (Some (fresh ?G)) (options_after (createWriteStream ?G demo_options 50 0)),
          ObtainWriteLock (fresh ?G + 3), Callback 50 [Null, Null]]"
    and "trace ?G [CreateReadStream demo_options 50, Emit (fresh ?G) Ready NoArg,
               Emit (fresh ?G + 3) TimedOut NoArg]
       = [NewLockCollection (fresh ?G) (options_after (createReadStream ?G demo_options 50)),
          NewLock (fresh ?G + 3) (opt_id demo_options) (Some (fresh ?G))
            (options_after (createReadStream ?G demo_options 50)),
          ObtainReadLock (fresh ?G + 3), Callback 50 [Null, Null]]"
    and "trace ?G [Remove demo_options 50, Emit (fresh ?G) Ready NoArg,
               Emit (fresh ?G + 3) TimedOut NoArg]
       = [NewLockCollection (fresh ?G) (options_after (remove ?G demo_options 50)),
          NewLock (fresh ?G + 3) (opt_id demo_options) (Some (fresh ?G))
            (options_after (remove ?G demo_options 50)),
          ObtainWriteLock (fresh ?G + 3), Callback 50 [Null, Null]]"
    and "trace ?G [Remove demo_options 50, Emit (fresh ?G) Error (PErr ''lost'')]
       = [NewLockCollection (fresh ?G) (options_after (remove ?G demo_options 50)),
          Callback 50 [Err ''lost'']]"
    by blast+
  then have g: "trace ?G [CreateWriteStream demo_options 50 0, Emit 0 Ready NoArg,
               Emit 3 TimedOut NoArg]
       = [NewLockCollection 0 ?o, NewLock 3 (Some (IdStr ''a1'')) (Some 0) ?o,
          ObtainWriteLock 3, Callback 50 [Null, Null]]"
    "trace ?G [CreateReadStream demo_options 50, Emit 0 Ready NoArg, Emit 3 TimedOut NoArg]
       = [NewLockCollection 0 ?o, NewLock 3 (Some (IdStr ''a1'')) (Some 0) ?o,
          ObtainReadLock 3, Callback 50 [Null, Null]]"
    "trace ?G [Remove demo_options 50, Emit 0 Ready NoArg, Emit 3 TimedOut NoArg]
       = [NewLockCollection 0 ?o, NewLock 3 (Some (IdStr ''a1'')) (Some 0) ?o,
          ObtainWriteLock 3, Callback 50 [Null, Null]]"
    "trace ?G [Remove demo_options 50, Emit 0 Error (PErr ''lost'')]
       = [NewLockCollection 0 ?o, Callback 50 [Err ''lost'']]"
    unfolding vals by simp_all
  from S S' prem1 have
    "trace ?s1 [CreateReadStream demo_options 51, Emit (fresh ?s1) TimedOut NoArg]
       = [NewLock (fresh ?s1) (opt_id demo_options) (locks ?s1)
            (options_after (createReadStream ?s1 demo_options 51)),
          ObtainReadLock (fresh ?s1), Callback 51 [Null, Null]]"
    and "trace ?s1 [CreateReadStream demo_options 51, Emit (fresh ?s1) Error (PErr ''lost'')]
       = [NewLock (fresh ?s1) (opt_id demo_options) (locks ?s1)
            (options_after (createReadStream ?s1 demo_options 51)),
          ObtainReadLock (fresh ?s1), Callback 51 [val_of (PErr ''lost'')]]"
    by auto
  then have s: "trace ?s1 [CreateReadStream demo_options 51, Emit 7 TimedOut NoArg]
       = [NewLock 7 (Some (IdStr ''a1'')) (Some 0) ?o, ObtainReadLock 7, Callback 51 [Null, Null]]"
    "trace ?s1 [CreateReadStream demo_options 51, Emit 7 Error (PErr ''lost'')]
       = [NewLock 7 (Some (IdStr ''a1'')) (Some 0) ?o, ObtainReadLock 7,
          Callback 51 [Err ''lost'']]"
    unfolding vals prem1 by simp_all
  from G mem have "\<exists>lock p'. Emit 3 TimedOut NoArg = Emit lock TimedOut p'" by blast
  with prem prem1 mem g s show ?thesis by (intro conjI)
qed

text \<open>
  C2. A write session whose stream emits \<open>'error'\<close> and then \<open>'close'\<close> while
  \<open>lock.heldLock\<close> is still set calls \<open>lock.releaseLock()\<close> twice: the two listeners of
  createWriteStream each test \<open>heldLock\<close> only, where createReadStream shares one latched
  tryReleaseLock between its listeners.
\<close>

theorem write_session_releases_twice:
  "trace (Grid demo_mongo (Some ''fs''))
     [CreateWriteStream demo_options 50 0, Emit 0 Ready NoArg, SetHeldLock 3 True,
      Emit 3 Locked (PDoc 1), Emit 7 Error (PErr ''boom''), Emit 7 Close NoArg]
   = [NewLockCollection 0 \<lparr>opt_id = Some (IdStr ''a1''), opt_root = Some ''fs'', opt_other = []\<rparr>,
      NewLock 3 (Some (IdStr ''a1'')) (Some 0)
        \<lparr>opt_id = Some (IdStr ''a1''), opt_root = Some ''fs'', opt_other = []\<rparr>,
      ObtainWriteLock 3,
      NewGridWriteStream 7 \<lparr>opt_id = Some (IdStr ''a1''), opt_root = Some ''fs'', opt_other = []\<rparr>,
      Callback 50 [Null, StreamRef 7, Doc 1],
      ReleaseLock 3, ReleaseLock 3]"
  by (simp add: eval_defs)

text \<open>
  C3, as the spec states it, fails: two calls that arrive before the first \<open>'ready'\<close>
  construct two LockCollections.
\<close>

theorem two_calls_two_lock_collections:
  "trace (Grid demo_mongo (Some ''fs''))
     [CreateWriteStream demo_options 50 0, CreateReadStream demo_options 51]
   = [NewLockCollection 0 \<lparr>opt_id = Some (IdStr ''a1''), opt_root = Some ''fs'', opt_other = []\<rparr>,
      NewLockCollection 3 \<lparr>opt_id = Some (IdStr ''a1''), opt_root = Some ''fs'', opt_other = []\<rparr>]"
  by (simp add: eval_defs)

lemma locks_run_cont: "locks (fst (run_cont k err s)) = locks s"
  by (cases k)
     (simp_all add: lockAndWrite_def lockAndRead_def lockAndRemove_def Let_def addListener_def
        new_object_def)

lemma locks_run_handler:
  "locks (fst (run_handler h p s)) = locks s \<or> (\<exists>lc. locks (fst (run_handler h p s)) = Some lc)"
  by (cases h)
     (simp_all add: locks_run_cont Let_def addListener_def new_object_def
        removeAllListeners_def)

lemma locks_run_all:
  "locks s \<noteq> None \<Longrightarrow> locks (fst (run_all ls obj p s)) \<noteq> None"
proof (induction ls arbitrary: s)
  case Nil
  then show ?case by simp
next
  case (Cons l ls)
  obtain u e once h where l: "l = (u, e, once, h)" by (cases l)
  let ?s0 = "if once then removeListener obj u s else s"
  have "locks ?s0 \<noteq> None" using Cons.prems by (simp add: removeListener_def)
  then have "locks (fst (run_handler h p ?s0)) \<noteq> None"
    using locks_run_handler [of h p ?s0] by auto
  then have "locks (fst (run_all ls obj p (fst (run_handler h p ?s0)))) \<noteq> None"
    by (rule Cons.IH)
  then show ?case using l by (simp add: split_beta)
qed

lemma locks_step: "locks s \<noteq> None \<Longrightarrow> locks (fst (step s inp)) \<noteq> None"
  by (cases inp)
     (auto simp: createWriteStream_def createReadStream_def remove_def exist_def Let_def
        lockAndWrite_def lockAndRead_def lockAndRemove_def addListener_def new_object_def
        emit_def locks_run_all unlink_done_def stream_releaseLock_def stream_renewLock_def
        split: option.splits)

lemma locks_handler:
  "locks (fst (run_handler h p s)) = (case h of On_ready lc k \<Rightarrow> Some lc | _ \<Rightarrow> locks s)"
  by (cases h)
     (simp_all add: locks_run_cont Let_def addListener_def new_object_def
        removeAllListeners_def)

lemma locks_round:
  assumes "\<forall>l \<in> set ls. \<forall>lc k. snd (snd (snd l)) = On_ready lc k \<longrightarrow> lc = obj \<and> e = Ready"
  shows "locks (fst (run_all ls obj p s)) = locks s
         \<or> (e = Ready \<and> locks (fst (run_all ls obj p s)) = Some obj)"
  using assms
proof (induction ls arbitrary: s)
  case Nil
  then show ?case by simp
next
  case (Cons l ls)
  obtain u e' once h where l: "l = (u, e', once, h)" by (cases l)
  let ?s0 = "if once then removeListener obj u s else s"
  let ?s1 = "fst (run_handler h p ?s0)"
  have s0: "locks ?s0 = locks s" by (simp add: removeListener_def)
  have "locks ?s1 = locks s \<or> (e = Ready \<and> locks ?s1 = Some obj)"
  proof (cases "\<exists>lc k. h = On_ready lc k")
    case True
    then obtain lc k where h: "h = On_ready lc k" by blast
    with Cons.prems l have "lc = obj" and "e = Ready" by auto
    then show ?thesis using h locks_handler [of h p ?s0] by simp
  next
    case False
    then have "locks ?s1 = locks ?s0" using locks_handler [of h p ?s0] by (cases h) auto
    then show ?thesis using s0 by simp
  qed
  moreover have "locks (fst (run_all ls obj p ?s1)) = locks ?s1
      \<or> (e = Ready \<and> locks (fst (run_all ls obj p ?s1)) = Some obj)"
    using Cons.prems by (intro Cons.IH) simp
  moreover have "fst (run_all (l # ls) obj p s) = fst (run_all ls obj p ?s1)"
    using l by (simp add: split_beta)
  ultimately show ?case by auto
qed

lemma locks_only_ready:
  "locks (fst (step (run (Grid m r) hist) inp)) = locks (run (Grid m r) hist)
   \<or> (\<exists>lc p. inp = Emit lc Ready p \<and> locks (fst (step (run (Grid m r) hist) inp)) = Some lc)"
proof (cases inp)
  case (Emit obj e p)
  let ?s = "run (Grid m r) hist"
  have "\<forall>l \<in> set (filter (\<lambda>l. fst (snd l) = e) (listeners ?s obj)).
          \<forall>lc k. snd (snd (snd l)) = On_ready lc k \<longrightarrow> lc = obj \<and> e = Ready"
  proof (intro ballI allI impI)
    fix l lc k
    assume mem: "l \<in> set (filter (\<lambda>l. fst (snd l) = e) (listeners ?s obj))"
      and h: "snd (snd (snd l)) = On_ready lc k"
    obtain u e' once h' where l: "l = (u, e', once, h')" by (cases l)
    with mem h have "(u, e, once, On_ready lc k) \<in> set (listeners ?s obj)" by auto
    with wf_reachable [of m r hist]
    have "fits e (On_ready lc k) \<and> acquiring (set (trace (Grid m r) hist)) obj (On_ready lc k)"
      unfolding wf_def by blast
    then show "lc = obj \<and> e = Ready" by simp
  qed
  from locks_round [OF this, of p ?s] show ?thesis using Emit by (auto simp: emit_def)
qed (auto simp: createWriteStream_def createReadStream_def remove_def exist_def Let_def
       lockAndWrite_def lockAndRead_def lockAndRemove_def createLockCollection_def
       addListener_def new_object_def unlink_done_def stream_releaseLock_def
       stream_renewLock_def split: option.splits)

text \<open>
  C3, amended. A call of createWriteStream, createReadStream or remove constructs a
  LockCollection exactly when it does not throw and finds no cached collection
  (\<open>self._locks\<close> unset), so calls that arrive before the first \<open>'ready'\<close> construct one
  each; a call that finds a cached collection constructs none. The \<open>'ready'\<close> of a
  collection caches that collection, in place of whatever was cached. In every run
  nothing but the \<open>'ready'\<close> of a collection changes the cache, so it is never emptied,
  and an \<open>'error'\<close> leaves it as it was (after a failed first setup a later call
  constructs again).
\<close>

theorem lock_collection_built_when_not_cached:
  "length (filter is_new_collection (effects (createWriteStream s opts cb n)))
     = (if threw (createWriteStream s opts cb n) = None \<and> locks s = None then 1 else 0)
   \<and> length (filter is_new_collection (effects (createReadStream s opts cb)))
     = (if threw (createReadStream s opts cb) = None \<and> locks s = None then 1 else 0)
   \<and> length (filter is_new_collection (effects (remove s opts cb)))
     = (if threw (remove s opts cb) = None \<and> locks s = None then 1 else 0)
   \<and> locks (fst (step (fst (createLockCollection opts k s)) (Emit (fresh s) Ready p)))
     = Some (fresh s)
   \<and> locks (fst (step (fst (createLockCollection opts k s)) (Emit (fresh s) Error p)))
     = locks s
   \<and> (locks s \<noteq> None \<longrightarrow> locks (fst (step s inp)) \<noteq> None)
   \<and> (locks (fst (step (run (Grid m r) hist) inp')) = locks (run (Grid m r) hist)
       \<or> (\<exists>lc q. inp' = Emit lc Ready q
              \<and> locks (fst (step (run (Grid m r) hist) inp')) = Some lc))"
proof (intro conjI impI)
  show "locks (fst (step (fst (createLockCollection opts k s)) (Emit (fresh s) Ready p)))
     = Some (fresh s)"
    by (simp add: createLockCollection_def Let_def emit_def addListener_def new_object_def
          removeListener_def removeAllListeners_def locks_run_cont)
  show "locks (fst (step (fst (createLockCollection opts k s)) (Emit (fresh s) Error p)))
     = locks s"
    by (simp add: createLockCollection_def Let_def emit_def addListener_def new_object_def
          removeListener_def removeAllListeners_def locks_run_cont)
  show "locks s \<noteq> None \<Longrightarrow> locks (fst (step s inp)) \<noteq> None"
    by (rule locks_step)
  show "locks (fst (step (run (Grid m r) hist) inp')) = locks (run (Grid m r) hist)
       \<or> (\<exists>lc q. inp' = Emit lc Ready q
              \<and> locks (fst (step (run (Grid m r) hist) inp')) = Some lc)"
    by (rule locks_only_ready)
qed (simp_all add: createWriteStream_def createReadStream_def remove_def Let_def
       createLockCollection_def lockAndWrite_def lockAndRead_def lockAndRemove_def
       split: option.splits)

theorem lock_collection_built_when_not_cached_witness:
  "locks (run (Grid demo_mongo (Some ''fs'')) [CreateWriteStream demo_options 50 0, Emit 0 Ready NoArg])
     \<noteq> None
   \<and> locks (fst (step
        (run (Grid demo_mongo (Some ''fs'')) [CreateWriteStream demo_options 50 0, Emit 0 Ready NoArg])
        (CreateReadStream demo_options 51))) \<noteq> None
   \<and> locks (run (Grid demo_mongo (Some ''fs''))
        [CreateWriteStream demo_options 50 0, CreateReadStream demo_options 51,
         Emit 0 Ready NoArg]) = Some 0
   \<and> locks (fst (step
        (run (Grid demo_mongo (Some ''fs''))
           [CreateWriteStream demo_options 50 0, CreateReadStream demo_options 51,
            Emit 0 Ready NoArg])
        (Emit 3 Ready NoArg))) = Some 3
   \<and> locks (fst (step
        (run (Grid demo_mongo (Some ''fs''))
           [CreateWriteStream demo_options 50 0, CreateReadStream demo_options 51,
            Emit 0 Ready NoArg])
        (Emit 3 Error (PErr ''lost'')))) = Some 0"
proof -
  have "locks (run (Grid demo_mongo (Some ''fs''))
          [CreateWriteStream demo_options 50 0, Emit 0 Ready NoArg]) \<noteq> None"
    by (simp add: eval_defs)
  then have "locks (run (Grid demo_mongo (Some ''fs''))
          [CreateWriteStream demo_options 50 0, Emit 0 Ready NoArg]) \<noteq> None
     \<and> locks (fst (step
          (run (Grid demo_mongo (Some ''fs''))
             [CreateWriteStream demo_options 50 0, Emit 0 Ready NoArg])
          (CreateReadStream demo_options 51))) \<noteq> None"
    using lock_collection_built_when_not_cached
      [of "run (Grid demo_mongo (Some ''fs'')) [CreateWriteStream demo_options 50 0, Emit 0 Ready NoArg]"
          demo_options 50 0 "K_write demo_options 50" NoArg "CreateReadStream demo_options 51"]
    by blast
  moreover have "locks (run (Grid demo_mongo (Some ''fs''))
        [CreateWriteStream demo_options 50 0, CreateReadStream demo_options 51,
         Emit 0 Ready NoArg]) = Some 0"
    and "locks (fst (step
        (run (Grid demo_mongo (Some ''fs''))
           [CreateWriteStream demo_options 50 0, CreateReadStream demo_options 51,
            Emit 0 Ready NoArg])
        (Emit 3 Ready NoArg))) = Some 3"
    and "locks (fst (step
        (run (Grid demo_mongo (Some ''fs''))
           [CreateWriteStream demo_options 50 0, CreateReadStream demo_options 51,
            Emit 0 Ready NoArg])
        (Emit 3 Error (PErr ''lost'')))) = Some 0"
    by (simp_all add: eval_defs)
  ultimately show ?thesis by (intro conjI) simp_all
qed

text \<open>
  C4. createReadStream and remove throw when \<open>options._id\<close> is absent (or otherwise
  falsy); createWriteStream, createReadStream and remove throw when \<open>options.root\<close> is
  supplied (a non-empty string: the guard is \<open>options.root &&\<close>) and differs from the
  Grid's root. A call that throws has called nothing on any collaborator and has left the
  Grid as it was: no listener is registered, so no callback can follow.
\<close>

theorem contract_violations_throw:
  "(\<not> truthy_id (opt_id opts) \<longrightarrow>
      threw (createReadStream s opts cb) = Some no_id_error
      \<and> threw (remove s opts cb) = Some no_id_error)
   \<and> (truthy_str (opt_root opts) \<and> root s \<noteq> opt_root opts \<longrightarrow>
      threw (createWriteStream s opts cb n) \<noteq> None
      \<and> threw (createReadStream s opts cb) \<noteq> None
      \<and> threw (remove s opts cb) \<noteq> None)
   \<and> (threw (createWriteStream s opts cb n) \<noteq> None \<longrightarrow>
      effects (createWriteStream s opts cb n) = [] \<and> grid_after (createWriteStream s opts cb n) = s)
   \<and> (threw (createReadStream s opts cb) \<noteq> None \<longrightarrow>
      effects (createReadStream s opts cb) = [] \<and> grid_after (createReadStream s opts cb) = s)
   \<and> (threw (remove s opts cb) \<noteq> None \<longrightarrow>
      effects (remove s opts cb) = [] \<and> grid_after (remove s opts cb) = s)"
  by (simp add: createWriteStream_def createReadStream_def remove_def Let_def
        split: option.splits)

theorem contract_violations_throw_witness:
  "\<not> truthy_id (opt_id bad_options)
   \<and> truthy_str (opt_root bad_options)
   \<and> root (Grid demo_mongo (Some ''fs'')) \<noteq> opt_root bad_options
   \<and> threw (createWriteStream (Grid demo_mongo (Some ''fs'')) bad_options 50 0) \<noteq> None
   \<and> threw (createReadStream (Grid demo_mongo (Some ''fs'')) bad_options 50) = Some no_id_error
   \<and> threw (remove (Grid demo_mongo (Some ''fs'')) bad_options 50) = Some no_id_error
   \<and> effects (createWriteStream (Grid demo_mongo (Some ''fs'')) bad_options 50 0) = []
   \<and> effects (createReadStream (Grid demo_mongo (Some ''fs'')) bad_options 50) = []
   \<and> effects (remove (Grid demo_mongo (Some ''fs'')) bad_options 50) = []"
proof -
  have "\<not> truthy_id (opt_id bad_options)" and "truthy_str (opt_root bad_options)"
    and "root (Grid demo_mongo (Some ''fs'')) \<noteq> opt_root bad_options"
    by (simp_all add: bad_options_def Grid_def)
  then show ?thesis
    using contract_violations_throw [of bad_options "Grid demo_mongo (Some ''fs'')" 50 0]
    by simp
qed


text \<open>
  C5. Once remove holds the write lock it calls GridStore.unlink. If unlink reports an
  error, index.js calls \<open>lock.releaseLock()\<close> (not removeLock) and then the callback with
  that error. If unlink succeeds, it calls \<open>lock.removeLock()\<close> and nothing else; the
  callback gets \<open>(null, true)\<close> when the lock emits \<open>'removed'\<close>. In every run,
  \<open>callback(null, true)\<close> happens only while a \<open>'removed'\<close> event of a lock is handled on
  which removeLock was called before.
\<close>

theorem remove_unlink_outcomes:
  "trace (fst (lockAndRemove i opts cb s))
      [Emit (fresh s) Locked p, UnlinkDone (fresh s + 4) (Some e)]
     = [Unlink (fresh s + 4) i opts, ReleaseLock (fresh s), Callback cb [Err e]]
   \<and> trace (fst (lockAndRemove i opts cb s))
      [Emit (fresh s) Locked p, UnlinkDone (fresh s + 4) None]
     = [Unlink (fresh s + 4) i opts, RemoveLock (fresh s)]
   \<and> trace (fst (lockAndRemove i opts cb s))
      [Emit (fresh s) Locked p, UnlinkDone (fresh s + 4) None, Emit (fresh s) Removed p']
     = [Unlink (fresh s + 4) i opts, RemoveLock (fresh s), Callback cb [Null, JTrue]]
   \<and> (Callback c [Null, JTrue] \<in> set (snd (step (run (Grid m r) is) inp)) \<longrightarrow>
        (\<exists>lock q. inp = Emit lock Removed q \<and> RemoveLock lock \<in> set (trace (Grid m r) is)))"
proof -
  have only: "Callback c [Null, JTrue] \<in> set (snd (step (run (Grid m r) is) inp)) \<longrightarrow>
        (\<exists>lock q. inp = Emit lock Removed q \<and> RemoveLock lock \<in> set (trace (Grid m r) is))"
  proof
    assume mem: "Callback c [Null, JTrue] \<in> set (snd (step (run (Grid m r) is) inp))"
    show "\<exists>lock q. inp = Emit lock Removed q \<and> RemoveLock lock \<in> set (trace (Grid m r) is)"
    proof (cases "\<exists>obj e p. inp = Emit obj e p")
      case True
      then obtain obj e q where inp: "inp = Emit obj e q" by blast
      with mem have "Callback c [Null, JTrue] \<in> set (snd (emit obj e q (run (Grid m r) is)))"
        by simp
      from emit_origin [OF wf_reachable this] obtain h s'
        where "fits e h" and "acquiring (set (trace (Grid m r) is)) obj h"
          and "Callback c [Null, JTrue] \<in> set (snd (run_handler h q s'))"
        by blast
      then have "e = Removed \<and> RemoveLock obj \<in> set (trace (Grid m r) is)"
        by (auto dest: handler_null_true)
      with inp show ?thesis by blast
    next
      case False
      from step_only_emit [OF mem False] show ?thesis by auto
    qed
  qed
  show ?thesis
    by (intro conjI only)
       (simp_all add: lockAndRemove_def Let_def emit_def addListener_def new_object_def
          removeListener_def unlink_done_def)
qed

theorem remove_unlink_outcomes_witness:
  "Callback 50 [Null, JTrue] \<in> set (snd (step
      (run (Grid demo_mongo (Some ''fs''))
         [Remove demo_options 50, Emit 0 Ready NoArg, Emit 3 Locked (PDoc 1), UnlinkDone 7 None])
      (Emit 3 Removed NoArg)))
   \<and> (\<exists>lock q. Emit 3 Removed NoArg = Emit lock Removed q
        \<and> RemoveLock lock \<in> set (trace (Grid demo_mongo (Some ''fs''))
            [Remove demo_options 50, Emit 0 Ready NoArg, Emit 3 Locked (PDoc 1),
             UnlinkDone 7 None]))"
proof -
  have "Callback 50 [Null, JTrue] \<in> set (snd (step
      (run (Grid demo_mongo (Some ''fs''))
         [Remove demo_options 50, Emit 0 Ready NoArg, Emit 3 Locked (PDoc 1), UnlinkDone 7 None])
      (Emit 3 Removed NoArg)))"
    by (simp add: eval_defs)
  then show ?thesis
    using remove_unlink_outcomes
      [of "IdStr ''a1''" demo_options 50 "Grid demo_mongo (Some ''fs'')" NoArg "''e''" NoArg 50
          demo_mongo "Some ''fs''"
          "[Remove demo_options 50, Emit 0 Ready NoArg, Emit 3 Locked (PDoc 1), UnlinkDone 7 None]"
          "Emit 3 Removed NoArg"]
    by blast
qed


lemma read_session_opened:
  "read_session_start (fresh s)
     (fst (step (fst (lockAndRead opts cb s)) (Emit (fresh s) Locked p)))"
  by (simp add: read_session_start_def lockAndRead_def Let_def emit_def addListener_def
        new_object_def removeAllListeners_def)


lemma read_session_started: "read_session_start f x \<Longrightarrow> read_session f x"
  by (simp add: read_session_start_def read_session_def)

lemma quiet_handler: "quiet h \<Longrightarrow> fst (run_handler h p s) = s"
  by (cases h) simp_all

text \<open>A round of quiet listeners only takes the \<open>once\<close> listeners among them off the
  emitter.\<close>

lemma run_all_quiet:
  "\<forall>l \<in> set ls. quiet (snd (snd (snd l))) \<Longrightarrow>
     fst (run_all ls obj p s)
       = s\<lparr>listeners := (listeners s)
            (obj := filter (\<lambda>l. fst l \<notin> fst ` {k \<in> set ls. fst (snd (snd k))})
                      (listeners s obj))\<rparr>"
proof (induction ls arbitrary: s)
  case Nil
  then show ?case by simp
next
  case (Cons l ls)
  obtain u e once h where l: "l = (u, e, once, h)" by (cases l)
  with Cons.prems have "quiet h" and rest: "\<forall>l \<in> set ls. quiet (snd (snd (snd l)))"
    by simp_all
  define R where "R = fst ` {k \<in> set ls. fst (snd (snd k))}"
  have IH: "fst (run_all ls obj p s')
      = s'\<lparr>listeners := (listeners s')(obj := filter (\<lambda>l. fst l \<notin> R) (listeners s' obj))\<rparr>"
    for s' unfolding R_def by (rule Cons.IH [OF rest])
  show ?case
  proof (cases once)
    case True
    have "fst (run_all (l # ls) obj p s) = fst (run_all ls obj p (removeListener obj u s))"
      using l True by (simp add: split_beta quiet_handler [OF \<open>quiet h\<close>])
    also have "\<dots> = s\<lparr>listeners := (listeners s)
        (obj := filter (\<lambda>l. fst l \<notin> R) (filter (\<lambda>l. fst l \<noteq> u) (listeners s obj)))\<rparr>"
      unfolding IH by (simp add: removeListener_def)
    also have "filter (\<lambda>l. fst l \<notin> R) (filter (\<lambda>l. fst l \<noteq> u) (listeners s obj))
        = filter (\<lambda>l. fst l \<notin> insert u R) (listeners s obj)"
      by (simp add: conj_commute)
    also have "insert u R = fst ` {k \<in> set (l # ls). fst (snd (snd k))}"
    proof -
      have "{k \<in> set (l # ls). fst (snd (snd k))}
          = insert l {k \<in> set ls. fst (snd (snd k))}"
        using l True by auto
      then show ?thesis unfolding R_def using l by simp
    qed
    finally show ?thesis .
  next
    case False
    have "fst (run_all (l # ls) obj p s) = fst (run_all ls obj p s)"
      using l False by (simp add: split_beta quiet_handler [OF \<open>quiet h\<close>])
    also have "\<dots> = s\<lparr>listeners := (listeners s)
        (obj := filter (\<lambda>l. fst l \<notin> R) (listeners s obj))\<rparr>"
      by (rule IH)
    also have "R = fst ` {k \<in> set (l # ls). fst (snd (snd k))}"
      unfolding R_def using l False by auto
    finally show ?thesis .
  qed
qed

lemma method_listener_quiet:
  "list_all (method_listener u1 u2) extra \<Longrightarrow> e \<noteq> Error \<Longrightarrow> e \<noteq> Released \<Longrightarrow>
     \<forall>l \<in> set (filter (\<lambda>l. fst (snd l) = e) extra). quiet (snd (snd (snd l)))"
  by (induction extra) (auto simp: method_listener_def)


lemma method_listener_filter:
  "list_all (method_listener u1 u2) extra \<Longrightarrow>
     list_all (method_listener u1 u2) (filter P extra)"
  by (induction extra) auto

text \<open>An event of the lock other than \<open>'error'\<close> and \<open>'released'\<close> leaves the two
  listeners of the session on the lock, and everything but the lock's listeners as it was.\<close>

lemma emit_lock_quiet:
  assumes l: "listeners x f = (u1, e1, False, h1) # (u2, e2, False, h2) # extra"
    and q: "quiet h1" "quiet h2"
    and ml: "list_all (method_listener u1 u2) extra"
    and e: "e \<noteq> Error" "e \<noteq> Released"
  shows "\<exists>extra'. fst (emit f e p x)
            = x\<lparr>listeners := (listeners x)(f := (u1, e1, False, h1) # (u2, e2, False, h2) # extra')\<rparr>
          \<and> list_all (method_listener u1 u2) extra'"
proof -
  define snap where "snap = filter (\<lambda>l. fst (snd l) = e) (listeners x f)"
  define R where "R = fst ` {k \<in> set snap. fst (snd (snd k))}"
  have quiet_all: "\<forall>l \<in> set snap. quiet (snd (snd (snd l)))"
    using q method_listener_quiet [OF ml e] unfolding snap_def l by auto
  have "R \<subseteq> fst ` set extra" unfolding R_def snap_def l by auto
  moreover have "\<forall>k \<in> set extra. fst k \<noteq> u1 \<and> fst k \<noteq> u2"
    using ml by (auto simp: list_all_iff method_listener_def)
  ultimately have "u1 \<notin> R" and "u2 \<notin> R" by blast+
  then have "filter (\<lambda>l. fst l \<notin> R) (listeners x f)
      = (u1, e1, False, h1) # (u2, e2, False, h2) # filter (\<lambda>l. fst l \<notin> R) extra"
    unfolding l by simp
  moreover have "fst (emit f e p x)
      = x\<lparr>listeners := (listeners x)(f := filter (\<lambda>l. fst l \<notin> R) (listeners x f))\<rparr>"
    unfolding emit_def R_def snap_def [symmetric] by (rule run_all_quiet [OF quiet_all])
  ultimately have "fst (emit f e p x)
      = x\<lparr>listeners := (listeners x)(f := (u1, e1, False, h1) # (u2, e2, False, h2)
             # filter (\<lambda>l. fst l \<notin> R) extra)\<rparr>"
    by simp
  moreover have "list_all (method_listener u1 u2) (filter (\<lambda>l. fst l \<notin> R) extra)"
    using ml by (rule method_listener_filter)
  ultimately show ?thesis by blast
qed


lemma read_session_cong:
  "listeners x' = listeners x \<Longrightarrow> session_lock x' = session_lock x \<Longrightarrow>
     fresh x' = fresh x \<Longrightarrow> read_session f x' = read_session f x"
  by (simp add: read_session_def)


lemma read_stream_emit:
  assumes "listeners x st = [(u1, Error, False, TryReleaseLock f st),
                             (u2, Close, False, TryReleaseLock f st),
                             (u3, End, False, TryReleaseLock f st)]"
  shows "listeners (fst (emit st e p x)) = listeners x
         \<and> session_lock (fst (emit st e p x)) = session_lock x
         \<and> fresh (fst (emit st e p x)) = fresh x"
  using assms by (cases e) (simp_all add: emit_def)


lemma read_session_emit_lock:
  assumes "read_session f x" and e: "e \<noteq> Error" "e \<noteq> Released"
  shows "read_session f (fst (emit f e p x))"
proof -
  from assms(1) obtain extra
    where l: "listeners x f = (f + 8, ExpiresSoon, False, On_expires_soon (f + 4))
                # (f + 9, Expired, False, On_expired (f + 4)) # extra"
      and ml: "list_all (method_listener (f + 8) (f + 9)) extra"
      and st: "listeners x (f + 4) = [(f + 5, Error, False, TryReleaseLock f (f + 4)),
                               (f + 6, Close, False, TryReleaseLock f (f + 4)),
                               (f + 7, End, False, TryReleaseLock f (f + 4))]"
      and sl: "session_lock x (f + 4) = Some f" and fr: "f + 9 < fresh x"
    unfolding read_session_def by blast
  from emit_lock_quiet [OF l _ _ ml e, of p] obtain extra'
    where x': "fst (emit f e p x)
        = x\<lparr>listeners := (listeners x)(f := (f + 8, ExpiresSoon, False, On_expires_soon (f + 4))
               # (f + 9, Expired, False, On_expired (f + 4)) # extra')\<rparr>"
      and ml': "list_all (method_listener (f + 8) (f + 9)) extra'"
    by auto
  show ?thesis unfolding x' read_session_def using ml' st sl fr by simp
qed


lemma read_session_method:
  assumes "read_session f x"
    and "e = Error \<or> e = Released \<or> (e = Renewed \<and> quiet h)"
  shows "read_session f (addListener f e once h x)"
proof -
  from assms(1) obtain extra
    where l: "listeners x f = (f + 8, ExpiresSoon, False, On_expires_soon (f + 4))
                # (f + 9, Expired, False, On_expired (f + 4)) # extra"
      and ml: "list_all (method_listener (f + 8) (f + 9)) extra"
      and st: "listeners x (f + 4) = [(f + 5, Error, False, TryReleaseLock f (f + 4)),
                               (f + 6, Close, False, TryReleaseLock f (f + 4)),
                               (f + 7, End, False, TryReleaseLock f (f + 4))]"
      and sl: "session_lock x (f + 4) = Some f" and fr: "f + 9 < fresh x"
    unfolding read_session_def by blast
  have "listeners (addListener f e once h x) f
      = (f + 8, ExpiresSoon, False, On_expires_soon (f + 4))
          # (f + 9, Expired, False, On_expired (f + 4)) # (extra @ [(fresh x, e, once, h)])"
    using l by (simp add: addListener_def)
  moreover have "list_all (method_listener (f + 8) (f + 9)) (extra @ [(fresh x, e, once, h)])"
    using ml assms(2) fr by (auto simp: method_listener_def)
  moreover have "listeners (addListener f e once h x) (f + 4) = listeners x (f + 4)"
    by (simp add: addListener_def)
  moreover have "session_lock (addListener f e once h x) = session_lock x"
    and "fresh (addListener f e once h x) = Suc (fresh x)"
    by (simp_all add: addListener_def)
  ultimately show ?thesis unfolding read_session_def using st sl fr by auto
qed


lemma read_session_step:
  assumes "read_session f x" and "session_event f (f + 4) inp"
  shows "read_session f (fst (step x inp))"
proof (cases inp)
  case (Emit obj e p)
  show ?thesis
  proof (cases "obj = f + 4")
    case True
    from assms(1) have "listeners x (f + 4) = [(f + 5, Error, False, TryReleaseLock f (f + 4)),
                               (f + 6, Close, False, TryReleaseLock f (f + 4)),
                               (f + 7, End, False, TryReleaseLock f (f + 4))]"
      by (simp add: read_session_def)
    from read_stream_emit [OF this, of e p]
    have "read_session f (fst (emit (f + 4) e p x)) = read_session f x"
      by (intro read_session_cong) simp_all
    then show ?thesis using assms(1) Emit True by simp
  next
    case False
    with assms(2) Emit have obj: "obj = f" and e: "e \<noteq> Error" "e \<noteq> Released" by simp_all
    show ?thesis using read_session_emit_lock [OF assms(1) e] Emit obj by simp
  qed
next
  case (SetHeldLock l b)
  have "read_session f (x\<lparr>heldLock := (heldLock x)(l := b)\<rparr>) = read_session f x"
    by (rule read_session_cong) simp_all
  then show ?thesis using assms(1) SetHeldLock by simp
next
  case (StreamReleaseLock st cb)
  with assms(2) have st: "st = f + 4" by simp
  from assms(1) have sl: "session_lock x (f + 4) = Some f" by (simp add: read_session_def)
  show ?thesis
  proof (cases cb)
    case None
    then show ?thesis using assms(1) StreamReleaseLock st sl
      by (simp add: stream_releaseLock_def)
  next
    case (Some c)
    have "read_session f (addListener f Error True (On_lock_error f c)
            (addListener f Released True (On_released f c) x))"
      by (intro read_session_method assms(1)) simp_all
    then show ?thesis using StreamReleaseLock st sl Some by (simp add: stream_releaseLock_def)
  qed
next
  case (StreamRenewLock st cb)
  with assms(2) have st: "st = f + 4" by simp
  from assms(1) have sl: "session_lock x (f + 4) = Some f" by (simp add: read_session_def)
  show ?thesis
  proof (cases cb)
    case None
    then show ?thesis using assms(1) StreamRenewLock st sl
      by (simp add: stream_renewLock_def)
  next
    case (Some c)
    have "read_session f (addListener f Error True (On_lock_error f c)
            (addListener f Renewed True (On_renewed c) x))"
      by (intro read_session_method assms(1)) simp_all
    then show ?thesis using StreamRenewLock st sl Some by (simp add: stream_renewLock_def)
  qed
qed (use assms(2) in simp_all)













text \<open>
  The listeners of a read stream release at most once: however \<open>'error'\<close>, \<open>'close'\<close>
  and \<open>'end'\<close> interleave, and whatever \<open>heldLock\<close> is in between, the shared
  tryReleaseLock calls \<open>lock.releaseLock()\<close> at most once.
\<close>

lemma read_release_potential:
  assumes "read_session f x" and "stream_event (f + 4) inp"
  shows "length (filter (\<lambda>y. y = ReleaseLock f) (snd (step x inp)))
           + (if releasePending (fst (step x inp)) (f + 4) then 0 else 1)
         \<le> (if releasePending x (f + 4) then 0 else (1::nat))"
proof (cases inp)
  case (Emit obj e p)
  with assms(2) have obj: "obj = f + 4" by simp
  from assms(1) have "listeners x (f + 4) = [(f + 5, Error, False, TryReleaseLock f (f + 4)),
                               (f + 6, Close, False, TryReleaseLock f (f + 4)),
                               (f + 7, End, False, TryReleaseLock f (f + 4))]"
    by (simp add: read_session_def)
  then show ?thesis using Emit obj by (cases e) (simp_all add: emit_def)
qed (use assms(2) in simp_all)

lemma stream_event_session_event: "stream_event st inp \<Longrightarrow> session_event f st inp"
  by (cases inp) auto

lemma read_release_count:
  "read_session f x \<Longrightarrow> \<forall>inp \<in> set js. stream_event (f + 4) inp \<Longrightarrow>
     length (filter (\<lambda>y. y = ReleaseLock f) (trace x js))
       \<le> (if releasePending x (f + 4) then 0 else (1::nat))"
proof (induction js arbitrary: x)
  case Nil
  then show ?case by simp
next
  case (Cons inp js)
  from Cons.prems have ev: "stream_event (f + 4) inp"
    and rest: "\<forall>inp \<in> set js. stream_event (f + 4) inp" by simp_all
  have "read_session f (fst (step x inp))"
    using Cons.prems(1) ev by (intro read_session_step stream_event_session_event)
  from Cons.IH [OF this rest] read_release_potential [OF Cons.prems(1) ev]
  show ?case by (simp split: if_splits)
qed

lemma read_session_releases_at_most_once:
  assumes "\<forall>inp \<in> set js. stream_event (fresh s + 4) inp"
  shows "length (filter (\<lambda>y. y = ReleaseLock (fresh s))
           (trace (fst (lockAndRead opts cb s)) (Emit (fresh s) Locked p # js))) \<le> 1"
proof -
  have "snd (step (fst (lockAndRead opts cb s)) (Emit (fresh s) Locked p))
      = [NewGridReadStream (fresh s + 4) opts,
         Callback cb [Null, StreamRef (fresh s + 4), val_of p]]"
    by (simp add: lockAndRead_def Let_def emit_def addListener_def new_object_def)
  moreover have "length (filter (\<lambda>y. y = ReleaseLock (fresh s))
      (trace (fst (step (fst (lockAndRead opts cb s)) (Emit (fresh s) Locked p))) js)) \<le> 1"
    using read_release_count [OF read_session_started [OF read_session_opened] assms,
        of opts cb p]
    by (simp split: if_splits)
  ultimately show ?thesis by simp
qed







text \<open>
  C7. In every run of a Grid, \<open>new GridWriteStream\<close> happens only while the
  \<open>'locked'\<close> event of a lock is handled on which obtainWriteLock was called before, and
  \<open>new GridReadStream\<close> only while the \<open>'locked'\<close> event of a lock is handled on which
  obtainReadLock was called before.
\<close>

theorem stream_built_only_when_locked:
  "(NewGridWriteStream st opts \<in> set (snd (step (run (Grid m r) is) inp)) \<longrightarrow>
      (\<exists>lock p. inp = Emit lock Locked p \<and> ObtainWriteLock lock \<in> set (trace (Grid m r) is)))
   \<and> (NewGridReadStream st opts \<in> set (snd (step (run (Grid m r) is) inp)) \<longrightarrow>
      (\<exists>lock p. inp = Emit lock Locked p \<and> ObtainReadLock lock \<in> set (trace (Grid m r) is)))"
proof (intro conjI impI)
  assume mem: "NewGridWriteStream st opts \<in> set (snd (step (run (Grid m r) is) inp))"
  show "\<exists>lock p. inp = Emit lock Locked p \<and> ObtainWriteLock lock \<in> set (trace (Grid m r) is)"
  proof (cases "\<exists>obj e p. inp = Emit obj e p")
    case True
    then obtain obj e q where inp: "inp = Emit obj e q" by blast
    with mem have "NewGridWriteStream st opts \<in> set (snd (emit obj e q (run (Grid m r) is)))"
      by simp
    from emit_origin [OF wf_reachable this] obtain h s'
      where "fits e h" and "acquiring (set (trace (Grid m r) is)) obj h"
        and "NewGridWriteStream st opts \<in> set (snd (run_handler h q s'))"
      by blast
    then have "e = Locked \<and> ObtainWriteLock obj \<in> set (trace (Grid m r) is)"
      by (auto dest: handler_write_stream)
    with inp show ?thesis by blast
  next
    case False
    from step_only_emit [OF mem False] show ?thesis by auto
  qed
next
  assume mem: "NewGridReadStream st opts \<in> set (snd (step (run (Grid m r) is) inp))"
  show "\<exists>lock p. inp = Emit lock Locked p \<and> ObtainReadLock lock \<in> set (trace (Grid m r) is)"
  proof (cases "\<exists>obj e p. inp = Emit obj e p")
    case True
    then obtain obj e q where inp: "inp = Emit obj e q" by blast
    with mem have "NewGridReadStream st opts \<in> set (snd (emit obj e q (run (Grid m r) is)))"
      by simp
    from emit_origin [OF wf_reachable this] obtain h s'
      where "fits e h" and "acquiring (set (trace (Grid m r) is)) obj h"
        and "NewGridReadStream st opts \<in> set (snd (run_handler h q s'))"
      by blast
    then have "e = Locked \<and> ObtainReadLock obj \<in> set (trace (Grid m r) is)"
      by (auto dest: handler_read_stream)
    with inp show ?thesis by blast
  next
    case False
    from step_only_emit [OF mem False] show ?thesis by auto
  qed
qed

theorem stream_built_only_when_locked_witness:
  "NewGridWriteStream 7 \<lparr>opt_id = Some (IdStr ''a1''), opt_root = Some ''fs'', opt_other = []\<rparr>
     \<in> set (snd (step
         (run (Grid demo_mongo (Some ''fs'')) [CreateWriteStream demo_options 50 0, Emit 0 Ready NoArg])
         (Emit 3 Locked (PDoc 1))))
   \<and> NewGridReadStream 7 \<lparr>opt_id = Some (IdStr ''a1''), opt_root = Some ''fs'', opt_other = []\<rparr>
     \<in> set (snd (step
         (run (Grid demo_mongo (Some ''fs'')) [CreateReadStream demo_options 50, Emit 0 Ready NoArg])
         (Emit 3 Locked (PDoc 1))))
   \<and> (\<exists>lock p. Emit 3 Locked (PDoc 1) = Emit lock Locked p
        \<and> ObtainWriteLock lock \<in> set (trace (Grid demo_mongo (Some ''fs''))
            [CreateWriteStream demo_options 50 0, Emit 0 Ready NoArg]))
   \<and> (\<exists>lock p. Emit 3 Locked (PDoc 1) = Emit lock Locked p
        \<and> ObtainReadLock lock \<in> set (trace (Grid demo_mongo (Some ''fs''))
            [CreateReadStream demo_options 50, Emit 0 Ready NoArg]))"
proof -
  have w: "NewGridWriteStream 7
       \<lparr>opt_id = Some (IdStr ''a1''), opt_root = Some ''fs'', opt_other = []\<rparr>
     \<in> set (snd (step
         (run (Grid demo_mongo (Some ''fs'')) [CreateWriteStream demo_options 50 0, Emit 0 Ready NoArg])
         (Emit 3 Locked (PDoc 1))))"
    by (simp add: eval_defs)
  have r: "NewGridReadStream 7
       \<lparr>opt_id = Some (IdStr ''a1''), opt_root = Some ''fs'', opt_other = []\<rparr>
     \<in> set (snd (step
         (run (Grid demo_mongo (Some ''fs'')) [CreateReadStream demo_options 50, Emit 0 Ready NoArg])
         (Emit 3 Locked (PDoc 1))))"
    by (simp add: eval_defs)
  from w r show ?thesis
    using stream_built_only_when_locked
      [of 7 "\<lparr>opt_id = Some (IdStr ''a1''), opt_root = Some ''fs'', opt_other = []\<rparr>"
          demo_mongo "Some ''fs''" "[CreateWriteStream demo_options 50 0, Emit 0 Ready NoArg]"
          "Emit 3 Locked (PDoc 1)"]
      stream_built_only_when_locked
      [of 7 "\<lparr>opt_id = Some (IdStr ''a1''), opt_root = Some ''fs'', opt_other = []\<rparr>"
          demo_mongo "Some ''fs''" "[CreateReadStream demo_options 50, Emit 0 Ready NoArg]"
          "Emit 3 Locked (PDoc 1)"]
    by blast
qed


text \<open>
  C8. tryParseObjectId returns the ObjectID when the driver's constructor accepts the
  value and \<open>false\<close> when the constructor throws; it throws nothing itself. remove,
  given an identifier (and no root mismatch), does not throw whether or not the
  identifier parses, and the \<open>_id\<close> it later hands to GridStore.unlink is the parsed
  ObjectID, or the caller's value unchanged when parsing failed. exist hands
  GridStore.exist the same, and never throws.
\<close>

theorem identifier_normalised_or_kept:
  "(ObjectID (mongo s) x = Inr oid \<longrightarrow> tryParseObjectId s x = ObjectId oid)
   \<and> (ObjectID (mongo s) x = Inl msg \<longrightarrow> tryParseObjectId s x = JFalse)
   \<and> (opt_id opts = Some x \<and> truthy_id (Some x)
        \<and> \<not> (truthy_str (opt_root opts) \<and> root s \<noteq> opt_root opts) \<longrightarrow>
       threw (remove s opts cb) = None
       \<and> (locks s \<noteq> None \<longrightarrow>
            trace s [Remove opts cb, Emit (fresh s) Locked p]
              = [NewLock (fresh s) (Some x) (locks s) (opts\<lparr>opt_root := root s\<rparr>),
                 ObtainWriteLock (fresh s),
                 Unlink (fresh s + 4)
                   (case ObjectID (mongo s) x of Inl _ \<Rightarrow> x | Inr oid \<Rightarrow> IdObj oid)
                   (opts\<lparr>opt_root := root s\<rparr>)])
       \<and> (locks s = None \<longrightarrow>
            trace s [Remove opts cb, Emit (fresh s) Ready q, Emit (fresh s + 3) Locked p]
              = [NewLockCollection (fresh s) (opts\<lparr>opt_root := root s\<rparr>),
                 NewLock (fresh s + 3) (Some x) (Some (fresh s)) (opts\<lparr>opt_root := root s\<rparr>),
                 ObtainWriteLock (fresh s + 3),
                 Unlink (fresh s + 7)
                   (case ObjectID (mongo s) x of Inl _ \<Rightarrow> x | Inr oid \<Rightarrow> IdObj oid)
                   (opts\<lparr>opt_root := root s\<rparr>)]))
   \<and> (opt_id opts = Some x \<and> truthy_id (Some x) \<longrightarrow>
       exist s opts cb
         = \<lparr>threw = None, options_after = opts, grid_after = s,
            effects = [ExistCall
              (Some (case ObjectID (mongo s) x of Inl _ \<Rightarrow> x | Inr oid \<Rightarrow> IdObj oid)) cb]\<rparr>)"
proof -
  have norm: "or_id (tryParseObjectId s x) x
      = (case ObjectID (mongo s) x of Inl _ \<Rightarrow> x | Inr oid \<Rightarrow> IdObj oid)"
    by (simp add: tryParseObjectId_def split: sum.splits)
  have rm: "opt_id opts = Some x \<Longrightarrow> truthy_id (Some x) \<Longrightarrow>
      \<not> (truthy_str (opt_root opts) \<and> root s \<noteq> opt_root opts) \<Longrightarrow>
      remove s opts cb
        = (let o2 = opts\<lparr>opt_root := root s\<rparr>;
               i = (case ObjectID (mongo s) x of Inl _ \<Rightarrow> x | Inr oid \<Rightarrow> IdObj oid);
               r = (if locks s = None then createLockCollection o2 (K_remove i o2 cb) s
                    else lockAndRemove i o2 cb s)
           in \<lparr>threw = None, options_after = o2, grid_after = fst r, effects = snd r\<rparr>)"
    using norm by (auto simp: remove_def Let_def)
  show ?thesis
  proof (intro conjI impI)
    show "ObjectID (mongo s) x = Inr oid \<Longrightarrow> tryParseObjectId s x = ObjectId oid"
      by (simp add: tryParseObjectId_def)
    show "ObjectID (mongo s) x = Inl msg \<Longrightarrow> tryParseObjectId s x = JFalse"
      by (simp add: tryParseObjectId_def)
  next
    assume a: "opt_id opts = Some x \<and> truthy_id (Some x)
        \<and> \<not> (truthy_str (opt_root opts) \<and> root s \<noteq> opt_root opts)"
    then have r: "remove s opts cb
        = (let o2 = opts\<lparr>opt_root := root s\<rparr>;
               i = (case ObjectID (mongo s) x of Inl _ \<Rightarrow> x | Inr oid \<Rightarrow> IdObj oid);
               r = (if locks s = None then createLockCollection o2 (K_remove i o2 cb) s
                    else lockAndRemove i o2 cb s)
           in \<lparr>threw = None, options_after = o2, grid_after = fst r, effects = snd r\<rparr>)"
      by (intro rm) simp_all
    show "threw (remove s opts cb) = None" unfolding r by (simp add: Let_def)
    show "trace s [Remove opts cb, Emit (fresh s) Locked p]
              = [NewLock (fresh s) (Some x) (locks s) (opts\<lparr>opt_root := root s\<rparr>),
                 ObtainWriteLock (fresh s),
                 Unlink (fresh s + 4)
                   (case ObjectID (mongo s) x of Inl _ \<Rightarrow> x | Inr oid \<Rightarrow> IdObj oid)
                   (opts\<lparr>opt_root := root s\<rparr>)]" if "locks s \<noteq> None"
    proof -
      from that obtain lc where "locks s = Some lc" by auto
      then show ?thesis using a
        by (simp add: r Let_def lockAndRemove_def emit_def addListener_def new_object_def
              removeListener_def)
    qed
    show "trace s [Remove opts cb, Emit (fresh s) Ready q, Emit (fresh s + 3) Locked p]
              = [NewLockCollection (fresh s) (opts\<lparr>opt_root := root s\<rparr>),
                 NewLock (fresh s + 3) (Some x) (Some (fresh s)) (opts\<lparr>opt_root := root s\<rparr>),
                 ObtainWriteLock (fresh s + 3),
                 Unlink (fresh s + 7)
                   (case ObjectID (mongo s) x of Inl _ \<Rightarrow> x | Inr oid \<Rightarrow> IdObj oid)
                   (opts\<lparr>opt_root := root s\<rparr>)]" if "locks s = None"
      using that a
      by (simp add: r Let_def createLockCollection_def lockAndRemove_def emit_def
            addListener_def new_object_def removeListener_def removeAllListeners_def)
  next
    assume "opt_id opts = Some x \<and> truthy_id (Some x)"
    then show "exist s opts cb
         = \<lparr>threw = None, options_after = opts, grid_after = s,
            effects = [ExistCall
              (Some (case ObjectID (mongo s) x of Inl _ \<Rightarrow> x | Inr oid \<Rightarrow> IdObj oid)) cb]\<rparr>"
      using norm by (simp add: exist_def)
  qed
qed

theorem identifier_normalised_or_kept_witness:
  "ObjectID (mongo (Grid demo_mongo (Some ''fs''))) (IdStr ''a1'') = Inl ''a1''
   \<and> tryParseObjectId (Grid demo_mongo (Some ''fs'')) (IdStr ''a1'') = JFalse
   \<and> ObjectID (mongo (Grid demo_mongo (Some ''fs''))) (IdObj 5) = Inr 5
   \<and> tryParseObjectId (Grid demo_mongo (Some ''fs'')) (IdObj 5) = ObjectId 5
   \<and> opt_id demo_options = Some (IdStr ''a1'') \<and> truthy_id (Some (IdStr ''a1''))
   \<and> \<not> (truthy_str (opt_root demo_options)
          \<and> root (Grid demo_mongo (Some ''fs'')) \<noteq> opt_root demo_options)
   \<and> locks (Grid demo_mongo (Some ''fs'')) = None
   \<and> threw (remove (Grid demo_mongo (Some ''fs'')) demo_options 50) = None
   \<and> trace (Grid demo_mongo (Some ''fs''))
        [Remove demo_options 50, Emit (fresh (Grid demo_mongo (Some ''fs''))) Ready NoArg,
         Emit (fresh (Grid demo_mongo (Some ''fs'')) + 3) Locked (PDoc 1)]
      = [NewLockCollection (fresh (Grid demo_mongo (Some ''fs'')))
           (demo_options\<lparr>opt_root := root (Grid demo_mongo (Some ''fs''))\<rparr>),
         NewLock (fresh (Grid demo_mongo (Some ''fs'')) + 3) (Some (IdStr ''a1''))
           (Some (fresh (Grid demo_mongo (Some ''fs''))))
           (demo_options\<lparr>opt_root := root (Grid demo_mongo (Some ''fs''))\<rparr>),
         ObtainWriteLock (fresh (Grid demo_mongo (Some ''fs'')) + 3),
         Unlink (fresh (Grid demo_mongo (Some ''fs'')) + 7) (IdStr ''a1'')
           (demo_options\<lparr>opt_root := root (Grid demo_mongo (Some ''fs''))\<rparr>)]
   \<and> effects (exist (Grid demo_mongo (Some ''fs'')) demo_options 50)
      = [ExistCall (Some (IdStr ''a1'')) 50]
   \<and> opt_id oid_options = Some (IdObj 5) \<and> truthy_id (Some (IdObj 5))
   \<and> effects (exist (Grid demo_mongo (Some ''fs'')) oid_options 50) = [ExistCall (Some (IdObj 5)) 50]"
proof -
  have p1: "ObjectID (mongo (Grid demo_mongo (Some ''fs''))) (IdStr ''a1'') = Inl ''a1''"
    and p2: "ObjectID (mongo (Grid demo_mongo (Some ''fs''))) (IdObj 5) = Inr 5"
    and p3: "opt_id demo_options = Some (IdStr ''a1'') \<and> truthy_id (Some (IdStr ''a1''))
       \<and> \<not> (truthy_str (opt_root demo_options)
              \<and> root (Grid demo_mongo (Some ''fs'')) \<noteq> opt_root demo_options)"
    and p4: "locks (Grid demo_mongo (Some ''fs'')) = None"
    and p5: "opt_id oid_options = Some (IdObj 5) \<and> truthy_id (Some (IdObj 5))"
    by (simp_all add: Grid_def demo_mongo_def demo_options_def oid_options_def)
  show ?thesis
    using p1 p2 p3 p4 p5
      identifier_normalised_or_kept
        [of "Grid demo_mongo (Some ''fs'')" "IdStr ''a1''" 0 "''a1''" demo_options 50 "PDoc 1" NoArg]
      identifier_normalised_or_kept
        [of "Grid demo_mongo (Some ''fs'')" "IdObj 5" 5 "''a1''" oid_options 50 "PDoc 1" NoArg]
    by simp
qed

text \<open>
  C9. What the three operations do to the caller's options object. \<open>root\<close> is
  overwritten with the Grid's root by every call that does not throw, and that object is
  the one handed to LockCollection or Lock; a call that throws leaves \<open>root\<close> alone.
  createWriteStream stores the new ObjectID in \<open>_id\<close> when the caller gave none (a falsy
  one), createReadStream and remove leave \<open>_id\<close> alone, and no call touches any other
  property.
\<close>

theorem options_mutation:
  "options_after (createWriteStream s opts cb n)
     = opts\<lparr>opt_id := (if truthy_id (opt_id opts) then opt_id opts else Some (IdObj n)),
            opt_root := (if threw (createWriteStream s opts cb n) = None then root s
                         else opt_root opts)\<rparr>
   \<and> options_after (createReadStream s opts cb)
     = opts\<lparr>opt_root := (if threw (createReadStream s opts cb) = None then root s
                         else opt_root opts)\<rparr>
   \<and> options_after (remove s opts cb)
     = opts\<lparr>opt_root := (if threw (remove s opts cb) = None then root s
                         else opt_root opts)\<rparr>
   \<and> (threw (createWriteStream s opts cb n) = None \<longrightarrow>
        effects (createWriteStream s opts cb n)
          = (if locks s = None
             then [NewLockCollection (fresh s) (options_after (createWriteStream s opts cb n))]
             else [NewLock (fresh s) (opt_id (options_after (createWriteStream s opts cb n)))
                     (locks s) (options_after (createWriteStream s opts cb n)),
                   ObtainWriteLock (fresh s)]))
   \<and> (threw (createReadStream s opts cb) = None \<longrightarrow>
        effects (createReadStream s opts cb)
          = (if locks s = None
             then [NewLockCollection (fresh s) (options_after (createReadStream s opts cb))]
             else [NewLock (fresh s) (opt_id opts) (locks s)
                     (options_after (createReadStream s opts cb)),
                   ObtainReadLock (fresh s)]))
   \<and> (threw (remove s opts cb) = None \<longrightarrow>
        effects (remove s opts cb)
          = (if locks s = None
             then [NewLockCollection (fresh s) (options_after (remove s opts cb))]
             else [NewLock (fresh s) (opt_id opts) (locks s) (options_after (remove s opts cb)),
                   ObtainWriteLock (fresh s)]))"
  by (simp add: createWriteStream_def createReadStream_def remove_def Let_def
        createLockCollection_def lockAndWrite_def lockAndRead_def lockAndRemove_def
        split: option.splits)

theorem options_mutation_witness:
  "threw (createWriteStream (Grid demo_mongo (Some ''fs''))
            \<lparr>opt_id = None, opt_root = None, opt_other = [(''mode'', ''w'')]\<rparr> 50 9) = None
   \<and> options_after (createWriteStream (Grid demo_mongo (Some ''fs''))
            \<lparr>opt_id = None, opt_root = None, opt_other = [(''mode'', ''w'')]\<rparr> 50 9)
      = \<lparr>opt_id = Some (IdObj 9), opt_root = Some ''fs'', opt_other = [(''mode'', ''w'')]\<rparr>
   \<and> threw (createReadStream (Grid demo_mongo (Some ''fs'')) demo_options 50) = None
   \<and> options_after (createReadStream (Grid demo_mongo (Some ''fs'')) demo_options 50)
      = \<lparr>opt_id = Some (IdStr ''a1''), opt_root = Some ''fs'', opt_other = []\<rparr>
   \<and> threw (remove (Grid demo_mongo (Some ''fs'')) demo_options 50) = None
   \<and> options_after (remove (Grid demo_mongo (Some ''fs'')) demo_options 50)
      = \<lparr>opt_id = Some (IdStr ''a1''), opt_root = Some ''fs'', opt_other = []\<rparr>
   \<and> effects (createWriteStream (Grid demo_mongo (Some ''fs''))
            \<lparr>opt_id = None, opt_root = None, opt_other = [(''mode'', ''w'')]\<rparr> 50 9)
      = [NewLockCollection 0
           \<lparr>opt_id = Some (IdObj 9), opt_root = Some ''fs'', opt_other = [(''mode'', ''w'')]\<rparr>]"
proof -
  have "threw (createWriteStream (Grid demo_mongo (Some ''fs''))
            \<lparr>opt_id = None, opt_root = None, opt_other = [(''mode'', ''w'')]\<rparr> 50 9) = None"
    and "threw (createReadStream (Grid demo_mongo (Some ''fs'')) demo_options 50) = None"
    and "threw (remove (Grid demo_mongo (Some ''fs'')) demo_options 50) = None"
    by (simp_all add: createWriteStream_def createReadStream_def remove_def Let_def Grid_def
          demo_options_def)
  then show ?thesis
    using options_mutation [of "Grid demo_mongo (Some ''fs'')"
        "\<lparr>opt_id = None, opt_root = None, opt_other = [(''mode'', ''w'')]\<rparr>" 50 9]
      options_mutation [of "Grid demo_mongo (Some ''fs'')" demo_options 50 9]
    by (simp add: Grid_def demo_options_def)
qed

text \<open>
  C10. exist never throws and changes neither the Grid nor the options. Without an
  \<open>_id\<close> (absent or otherwise falsy), where createReadStream and remove throw, it
  calls GridStore.exist with an undefined identifier. With one, it calls GridStore.exist
  with the ObjectID that the driver's constructor makes of it, or with the caller's
  value unchanged when the constructor throws.
\<close>

theorem exist_needs_no_identifier:
  "threw (exist s opts cb) = None
   \<and> grid_after (exist s opts cb) = s
   \<and> options_after (exist s opts cb) = opts
   \<and> (\<not> truthy_id (opt_id opts) \<longrightarrow>
        effects (exist s opts cb) = [ExistCall None cb]
        \<and> threw (createReadStream s opts cb) = Some no_id_error
        \<and> threw (remove s opts cb) = Some no_id_error)
   \<and> (opt_id opts = Some x \<and> truthy_id (Some x) \<longrightarrow>
        effects (exist s opts cb)
          = [ExistCall (Some (case ObjectID (mongo s) x of Inl _ \<Rightarrow> x
                              | Inr oid \<Rightarrow> IdObj oid)) cb])
   \<and> (opt_id opts = Some x \<and> truthy_id (Some x) \<and> ObjectID (mongo s) x = Inr oid \<longrightarrow>
        effects (exist s opts cb) = [ExistCall (Some (IdObj oid)) cb])
   \<and> (opt_id opts = Some x \<and> truthy_id (Some x) \<and> ObjectID (mongo s) x = Inl msg \<longrightarrow>
        effects (exist s opts cb) = [ExistCall (Some x) cb])"
proof -
  have "or_id (tryParseObjectId s x) x
      = (case ObjectID (mongo s) x of Inl _ \<Rightarrow> x | Inr oid \<Rightarrow> IdObj oid)"
    by (simp add: tryParseObjectId_def split: sum.splits)
  then show ?thesis
    by (auto simp: exist_def createReadStream_def remove_def Let_def)
qed

theorem exist_needs_no_identifier_witness:
  "\<not> truthy_id (opt_id bad_options)
   \<and> effects (exist (Grid hex_mongo (Some ''fs'')) bad_options 50) = [ExistCall None 50]
   \<and> threw (exist (Grid hex_mongo (Some ''fs'')) bad_options 50) = None
   \<and> threw (createReadStream (Grid hex_mongo (Some ''fs'')) bad_options 50) = Some no_id_error
   \<and> threw (remove (Grid hex_mongo (Some ''fs'')) bad_options 50) = Some no_id_error
   \<and> opt_id hex_options = Some (IdStr ''0000000000000000000000ff'')
   \<and> truthy_id (Some (IdStr ''0000000000000000000000ff''))
   \<and> ObjectID (mongo (Grid hex_mongo (Some ''fs''))) (IdStr ''0000000000000000000000ff'')
      = Inr 255
   \<and> effects (exist (Grid hex_mongo (Some ''fs'')) hex_options 50)
      = [ExistCall (Some (IdObj 255)) 50]
   \<and> opt_id demo_options = Some (IdStr ''a1'') \<and> truthy_id (Some (IdStr ''a1''))
   \<and> ObjectID (mongo (Grid hex_mongo (Some ''fs''))) (IdStr ''a1'')
      = Inl ''Argument passed in must be a string of 24 hex characters''
   \<and> effects (exist (Grid hex_mongo (Some ''fs'')) demo_options 50)
      = [ExistCall (Some (IdStr ''a1'')) 50]"
proof -
  let ?G = "Grid hex_mongo (Some ''fs'')"
  have p0: "\<not> truthy_id (opt_id bad_options)" by (simp add: bad_options_def)
  have p1: "opt_id hex_options = Some (IdStr ''0000000000000000000000ff'')"
    "truthy_id (Some (IdStr ''0000000000000000000000ff''))"
    "ObjectID (mongo ?G) (IdStr ''0000000000000000000000ff'') = Inr 255"
    by (simp_all add: hex_options_def Grid_def hex_mongo_def hex_ObjectID_def)
  have p2: "opt_id demo_options = Some (IdStr ''a1'')" "truthy_id (Some (IdStr ''a1''))"
    "ObjectID (mongo ?G) (IdStr ''a1'')
       = Inl ''Argument passed in must be a string of 24 hex characters''"
    by (simp_all add: demo_options_def Grid_def hex_mongo_def hex_ObjectID_def)
  note B = exist_needs_no_identifier [where s = ?G and opts = bad_options and cb = 50]
  note H = exist_needs_no_identifier
    [where s = ?G and opts = hex_options and cb = 50
       and x = "IdStr ''0000000000000000000000ff''" and oid = 255]
  note D = exist_needs_no_identifier
    [where s = ?G and opts = demo_options and cb = 50 and x = "IdStr ''a1''"
       and msg = "''Argument passed in must be a string of 24 hex characters''"]
  from B p0 have "effects (exist ?G bad_options 50) = [ExistCall None 50]"
    and "threw (exist ?G bad_options 50) = None"
    and "threw (createReadStream ?G bad_options 50) = Some no_id_error"
    and "threw (remove ?G bad_options 50) = Some no_id_error"
    by blast+
  moreover from H p1 have "effects (exist ?G hex_options 50) = [ExistCall (Some (IdObj 255)) 50]"
    by blast
  moreover from D p2 have "effects (exist ?G demo_options 50)
      = [ExistCall (Some (IdStr ''a1'')) 50]"
    by blast
  ultimately show ?thesis using p0 p1 p2 by (intro conjI)
qed

end
